theory Spec2Isabelle
  imports Main
begin

section \<open>The Segment API client of tubular (\<open>tubular/segment_api.py\<close>)\<close>

text \<open>
  The module batches learner identifiers, posts bulk-delete requests to Segment with a
  layered retry policy, and looks the status of a request up. The embedding keeps the
  source's names. Everything outside the module is data of the model:
  \<^item> the server is an oracle \<open>srv\<close>: the \<open>n\<close>-th HTTP request of a run (counted from
    0 in the field \<open>calls\<close>) receives \<open>srv n request\<close>;
  \<^item> logging, sleeping and sending are events appended to the \<open>trace\<close> of the run;
  \<^item> every Python exception is a value of \<open>exc\<close>, and a function that may raise
    returns \<open>exc + 'a\<close> (\<open>Inl\<close> the exception);
  \<^item> the \<open>while\<close> loop of \<open>delete_learners\<close> may run forever, so it is a partial
    function into \<open>option\<close>: \<open>None\<close> is a run that never returns.
\<close>

subsection \<open>Python values\<close>

text \<open>The values a learner dict holds: integers (the LMS user id) and strings.\<close>

datatype pyval = PyInt int | PyStr string

type_synonym learner = "string \<rightharpoonup> pyval"

text \<open>A parsed JSON document. A \<open>JObj\<close> holds the items of the parsed dict.\<close>

datatype json =
    JNull
  | JBool bool
  | JNum int
  | JStr string
  | JArr "json list"
  | JObj "(string \<times> json) list"

text \<open>
  What a Python function hands back to its caller: \<open>None\<close> (a function that ends
  without a \<open>return\<close> value) or a JSON value.
\<close>

datatype retval = NoneVal | JsonVal json

text \<open>
  An HTTP response as the module reads it: \<open>resp.status_code\<close>, \<open>resp.text\<close> and the
  result of \<open>resp.json()\<close>, which is \<open>None\<close> when the body does not decode
  (\<open>JSONDecodeError\<close>).
\<close>

record response =
  status_code :: int
  resp_text :: string
  json_body :: "json option"

text \<open>
  The third argument of the message built in the \<open>except\<close> clause of
  \<open>delete_learners\<close> is \<open>text_type(resp_json)\<close>, where \<open>resp_json\<close> is a string (the
  initial \<open>""\<close> or \<open>resp.text\<close>) or the parsed document.
\<close>

datatype content = Text string | Parsed json

datatype exc =
    KeyError string
  | IndexError
  | TypeError
  | HTTPError response
  | JSONDecodeError
  | Timeout
  | ConnectionError
  | Exception_err int int content
    \<comment> \<open>\<open>Exception(err)\<close>: the start index, the end index and the response content
        that \<open>err\<close> is formatted from\<close>

datatype request =
    HttpPost string "(string \<times> string) list" json
  | HttpGet string "(string \<times> string) list"

datatype http_result = Resp response | TimedOut | ConnFailed

type_synonym server = "nat \<Rightarrow> request \<Rightarrow> http_result"

datatype event =
    Http request
  | Sleep nat
  | LogInfoAttempt int int pyval pyval pyval pyval
  | LogErrorTooMany nat
  | LogInfoQueued json
  | LogException exc
  | LogErrorWrapped int int content
  | LogErrorBackoff nat nat
  | LogErrorTraceback exc
  | LogErrorHTTP int string
  | LogInfoStatus json

record world =
  calls :: nat
  trace :: "event list"

definition emit :: "event \<Rightarrow> world \<Rightarrow> world" where
  "emit e w = w\<lparr>trace := trace w @ [e]\<rparr>"

definition ebind :: "exc + 'a \<Rightarrow> ('a \<Rightarrow> exc + 'b) \<Rightarrow> exc + 'b" where
  "ebind m f = (case m of Inl e \<Rightarrow> Inl e | Inr x \<Rightarrow> f x)"

text \<open>\<open>xs[i]\<close> on a Python list: a negative index counts from the end.\<close>

definition list_getitem :: "'a list \<Rightarrow> int \<Rightarrow> exc + 'a" where
  "list_getitem xs i =
     (if 0 \<le> i \<and> i < int (length xs) then Inr (xs ! nat i)
      else if i < 0 \<and> - int (length xs) \<le> i then Inr (xs ! nat (int (length xs) + i))
      else Inl IndexError)"

text \<open>\<open>d[k]\<close> on a Python dict.\<close>

definition dict_getitem :: "learner \<Rightarrow> string \<Rightarrow> exc + pyval" where
  "dict_getitem d k = (case d k of None \<Rightarrow> Inl (KeyError k) | Some v \<Rightarrow> Inr v)"

text \<open>
  \<open>resp_json['regulate_id']\<close> on a parsed document: a dict is looked up, every other
  JSON value is not subscriptable by a string.
\<close>

fun json_getitem :: "json \<Rightarrow> string \<Rightarrow> exc + json" where
  "json_getitem (JObj kvs) k = (case map_of kvs k of None \<Rightarrow> Inl (KeyError k) | Some v \<Rightarrow> Inr v)"
| "json_getitem _ k = Inl TypeError"

text \<open>The decimal digits of a natural number, as \<open>str\<close> prints an integer.\<close>

fun digits :: "nat \<Rightarrow> string" where
  "digits n =
     (if n < 10 then [''0123456789'' ! n]
      else digits (n div 10) @ [''0123456789'' ! (n mod 10)])"

declare digits.simps [simp del]

fun text_type :: "pyval \<Rightarrow> string" where
  "text_type (PyInt i) = (if i < 0 then CHR ''-'' # digits (nat (- i)) else digits (nat i))"
| "text_type (PyStr s) = s"

subsection \<open>Constants of the module\<close>

definition MAX_TRIES :: nat where
  "MAX_TRIES = 4"

definition REQUIRED_IDENTIFYING_KEYS :: "string list" where
  "REQUIRED_IDENTIFYING_KEYS = [''id'', ''original_username'']"

definition OPTIONAL_IDENTIFYING_KEYS :: "string list" where
  "OPTIONAL_IDENTIFYING_KEYS = [''ecommerce_segment_id'']"

definition BULK_DELETE_URL :: "string \<Rightarrow> string" where
  "BULK_DELETE_URL slug = ''v1beta/workspaces/'' @ slug @ ''/regulations''"

definition BULK_DELETE_STATUS_URL :: "string \<Rightarrow> string \<Rightarrow> string" where
  "BULK_DELETE_STATUS_URL slug rid = ''v1beta/workspaces/'' @ slug @ ''/regulations/'' @ rid"

definition MAXIMUM_USERS_IN_DELETE_REQUEST :: nat where
  "MAXIMUM_USERS_IN_DELETE_REQUEST = 5000"

subsection \<open>The retry policy\<close>

text \<open>
  \<open>_backoff_handler\<close>: logs the wait and the number of tries, then the traceback, then
  the status and text of the response when the exception carries one (an
  \<open>HTTPError\<close>); for any other exception the attribute access fails and is swallowed.
\<close>

definition backoff_handler :: "nat \<Rightarrow> nat \<Rightarrow> exc \<Rightarrow> world \<Rightarrow> world" where
  "backoff_handler wait tries e w =
     (let w1 = emit (LogErrorBackoff wait tries) w;
          w2 = emit (LogErrorTraceback e) w1
      in case e of
           HTTPError r \<Rightarrow> emit (LogErrorHTTP (status_code r) (resp_text r)) w2
         | _ \<Rightarrow> w2)"

text \<open>
  The wait generators of the \<open>backoff\<close> library: \<open>backoff.expo\<close> yields 1, 2, 4, ...
  and \<open>backoff.constant(interval=30)\<close> yields 30 each time. The library draws the
  actual sleep at random below the generated value; the model records the generated
  value.
\<close>

datatype wait_gen = Expo | Constant nat

fun next_wait :: "wait_gen \<Rightarrow> nat \<Rightarrow> nat" where
  "next_wait Expo k = 2 ^ k"
| "next_wait (Constant c) k = c"

fun http_status_giveup :: "exc \<Rightarrow> bool" where
  "http_status_giveup (HTTPError r) =
     (\<not> 429 = status_code r \<and> \<not> (500 \<le> status_code r \<and> status_code r < 600))"
| "http_status_giveup _ = False"

text \<open>
  \<open>backoff.on_exception(wait_gen, exception, max_tries, giveup, on_backoff)\<close>, after
  the library's retry loop: \<open>tries\<close> is the number of calls already made; the target
  is called; an exception of another class passes through; an exception of the class
  is re-raised when \<open>giveup\<close> holds or the number of tries has reached \<open>max_tries\<close>,
  and otherwise the handler runs, the thread sleeps and the target is called again.
\<close>

function on_exception ::
  "wait_gen \<Rightarrow> (exc \<Rightarrow> bool) \<Rightarrow> nat \<Rightarrow> (exc \<Rightarrow> bool) \<Rightarrow>
   (world \<Rightarrow> (exc + 'a) \<times> world) \<Rightarrow> nat \<Rightarrow> world \<Rightarrow> (exc + 'a) \<times> world" where
  "on_exception wg is_class max_tries giveup target tries w =
     (case target w of
        (Inr ret, w') \<Rightarrow> (Inr ret, w')
      | (Inl e, w') \<Rightarrow>
          if \<not> is_class e then (Inl e, w')
          else if giveup e \<or> max_tries \<le> Suc tries then (Inl e, w')
          else on_exception wg is_class max_tries giveup target (Suc tries)
                 (emit (Sleep (next_wait wg tries))
                    (backoff_handler (next_wait wg tries) (Suc tries) e w')))"
  by pat_completeness auto
termination
  by (relation "measure (\<lambda>(wg, is_class, max_tries, giveup, target, tries, w). max_tries - tries)")
     auto

declare on_exception.simps [simp del]

fun is_JSONDecodeError :: "exc \<Rightarrow> bool" where
  "is_JSONDecodeError JSONDecodeError = True"
| "is_JSONDecodeError _ = False"

fun is_HTTPError :: "exc \<Rightarrow> bool" where
  "is_HTTPError (HTTPError r) = True"
| "is_HTTPError _ = False"

fun is_Timeout :: "exc \<Rightarrow> bool" where
  "is_Timeout Timeout = True"
| "is_Timeout _ = False"

text \<open>
  \<open>_retry_segment_api\<close>: the decode layer around the HTTP-error layer around the
  timeout layer around the function.
\<close>

definition retry_segment_api ::
  "(world \<Rightarrow> (exc + 'a) \<times> world) \<Rightarrow> world \<Rightarrow> (exc + 'a) \<times> world" where
  "retry_segment_api func =
     on_exception Expo is_JSONDecodeError MAX_TRIES (\<lambda>e. False)
       (on_exception Expo is_HTTPError MAX_TRIES http_status_giveup
          (on_exception (Constant 30) is_Timeout MAX_TRIES (\<lambda>e. False) func 0) 0) 0"

subsection \<open>The client\<close>

record segment_api =
  base_url :: string
  auth_token :: string
  workspace_slug :: string

text \<open>\<open>resp.raise_for_status()\<close>: a status from 400 to 599 raises \<open>HTTPError\<close>.\<close>

definition raise_for_status :: "response \<Rightarrow> exc + response" where
  "raise_for_status r =
     (if 400 \<le> status_code r \<and> status_code r < 600 then Inl (HTTPError r) else Inr r)"

text \<open>
  The body shared by \<open>_call_segment_post\<close> and \<open>_call_segment_get\<close> under the
  decorator: send the request, then \<open>raise_for_status\<close>.
\<close>

definition send_request :: "server \<Rightarrow> request \<Rightarrow> world \<Rightarrow> (exc + response) \<times> world" where
  "send_request srv req w =
     (let w' = emit (Http req) (w\<lparr>calls := Suc (calls w)\<rparr>)
      in case srv (calls w) req of
           Resp r \<Rightarrow> (raise_for_status r, w')
         | TimedOut \<Rightarrow> (Inl Timeout, w')
         | ConnFailed \<Rightarrow> (Inl ConnectionError, w'))"

definition post_request :: "segment_api \<Rightarrow> string \<Rightarrow> json \<Rightarrow> request" where
  "post_request api u params =
     HttpPost (base_url api @ u)
       [(''Authorization'', ''Bearer '' @ auth_token api),
        (''Content-Type'', ''application/json'')]
       params"

definition get_request :: "segment_api \<Rightarrow> string \<Rightarrow> request" where
  "get_request api u =
     HttpGet (base_url api @ u) [(''Authorization'', ''Bearer '' @ auth_token api)]"

definition call_segment_post ::
  "server \<Rightarrow> segment_api \<Rightarrow> string \<Rightarrow> json \<Rightarrow> world \<Rightarrow> (exc + response) \<times> world" where
  "call_segment_post srv api u params =
     retry_segment_api (send_request srv (post_request api u params))"

definition call_segment_get ::
  "server \<Rightarrow> segment_api \<Rightarrow> string \<Rightarrow> world \<Rightarrow> (exc + response) \<times> world" where
  "call_segment_get srv api u = retry_segment_api (send_request srv (get_request api u))"

subsection \<open>\<open>delete_learners\<close>\<close>

text \<open>The arguments of the first \<open>LOG.info\<close> of a window, evaluated left to right.\<close>

definition attempt_args ::
  "learner list \<Rightarrow> int \<Rightarrow> int \<Rightarrow> exc + (pyval \<times> pyval \<times> pyval \<times> pyval)" where
  "attempt_args learners start_idx end_idx =
     ebind (list_getitem learners start_idx) (\<lambda>l1.
     ebind (dict_getitem l1 ''id'') (\<lambda>a.
     ebind (dict_getitem l1 ''original_username'') (\<lambda>b.
     ebind (list_getitem learners end_idx) (\<lambda>l2.
     ebind (dict_getitem l2 ''id'') (\<lambda>c.
     ebind (dict_getitem l2 ''original_username'') (\<lambda>d.
     Inr (a, b, c, d)))))))"

text \<open>The loop over the required keys of one learner: the first missing key raises.\<close>

fun required_vals :: "learner \<Rightarrow> string list \<Rightarrow> exc + string list" where
  "required_vals l [] = Inr []"
| "required_vals l (k # ks) =
     ebind (dict_getitem l k) (\<lambda>v.
     ebind (required_vals l ks) (\<lambda>vs. Inr (text_type v # vs)))"

text \<open>The loop over the optional keys: a key that is absent is skipped.\<close>

fun optional_vals :: "learner \<Rightarrow> string list \<Rightarrow> string list" where
  "optional_vals l [] = []"
| "optional_vals l (k # ks) =
     (case l k of
        None \<Rightarrow> optional_vals l ks
      | Some v \<Rightarrow> text_type v # optional_vals l ks)"

text \<open>
  The loop \<open>for idx in range(start_idx, end_idx + 1)\<close> that fills \<open>learner_vals\<close>,
  over the list of indices still to visit.
\<close>

fun flatten_vals :: "learner list \<Rightarrow> int list \<Rightarrow> string list \<Rightarrow> exc + string list" where
  "flatten_vals learners [] learner_vals = Inr learner_vals"
| "flatten_vals learners (idx # idxs) learner_vals =
     ebind (list_getitem learners idx) (\<lambda>l.
     ebind (required_vals l REQUIRED_IDENTIFYING_KEYS) (\<lambda>rs.
       flatten_vals learners idxs
         (learner_vals @ rs @ optional_vals l OPTIONAL_IDENTIFYING_KEYS)))"

definition delete_params :: "string list \<Rightarrow> json" where
  "delete_params learner_vals =
     JObj [(''regulation_type'', JStr ''Suppress_With_Delete''),
           (''attributes'',
              JObj [(''name'', JStr ''userId''), (''values'', JArr (map JStr learner_vals))])]"

datatype step = Continue | Return | Raise exc

text \<open>
  The \<open>except (TypeError, KeyError, HTTPError, JSONDecodeError)\<close> clause: log the
  exception and the message, raise \<open>Exception(err)\<close>.
\<close>

definition wrap_error :: "int \<Rightarrow> int \<Rightarrow> content \<Rightarrow> exc \<Rightarrow> world \<Rightarrow> step \<times> world" where
  "wrap_error start_idx end_idx resp_json e w =
     (Raise (Exception_err start_idx end_idx resp_json),
      emit (LogErrorWrapped start_idx end_idx resp_json) (emit (LogException e) w))"

fun is_wrapped_class :: "exc \<Rightarrow> bool" where
  "is_wrapped_class TypeError = True"
| "is_wrapped_class (KeyError k) = True"
| "is_wrapped_class (HTTPError r) = True"
| "is_wrapped_class JSONDecodeError = True"
| "is_wrapped_class _ = False"

text \<open>The \<open>try\<close> statement of a window: \<open>resp_json\<close> starts as the empty string.\<close>

definition submit ::
  "server \<Rightarrow> segment_api \<Rightarrow> int \<Rightarrow> int \<Rightarrow> string list \<Rightarrow> world \<Rightarrow> step \<times> world" where
  "submit srv api start_idx end_idx learner_vals w =
     (case call_segment_post srv api (BULK_DELETE_URL (workspace_slug api))
             (delete_params learner_vals) w of
        (Inl e, w1) \<Rightarrow>
          if is_wrapped_class e then wrap_error start_idx end_idx (Text []) e w1
          else (Raise e, w1)
      | (Inr resp, w1) \<Rightarrow>
          (case json_body resp of
             None \<Rightarrow> wrap_error start_idx end_idx (Text (resp_text resp)) JSONDecodeError w1
           | Some resp_json \<Rightarrow>
               (case json_getitem resp_json ''regulate_id'' of
                  Inl e \<Rightarrow> wrap_error start_idx end_idx (Parsed resp_json) e w1
                | Inr bulk_user_delete_id \<Rightarrow>
                    (Continue, emit (LogInfoQueued bulk_user_delete_id) w1))))"

text \<open>One iteration of the \<open>while\<close> loop, up to the update of \<open>curr_idx\<close>.\<close>

definition window_step ::
  "server \<Rightarrow> segment_api \<Rightarrow> learner list \<Rightarrow> int \<Rightarrow> int \<Rightarrow> world \<Rightarrow> step \<times> world" where
  "window_step srv api learners chunk_size curr_idx w =
     (let start_idx = curr_idx;
          end_idx = min (start_idx + chunk_size - 1) (int (length learners) - 1)
      in case attempt_args learners start_idx end_idx of
           Inl e \<Rightarrow> (Raise e, w)
         | Inr (a, b, c, d) \<Rightarrow>
             (let w1 = emit (LogInfoAttempt start_idx end_idx a b c d) w
              in case flatten_vals learners [start_idx..end_idx] [] of
                   Inl e \<Rightarrow> (Raise e, w1)
                 | Inr learner_vals \<Rightarrow>
                     if MAXIMUM_USERS_IN_DELETE_REQUEST \<le> length learner_vals
                     then (Return, emit (LogErrorTooMany (length learner_vals)) w1)
                     else submit srv api start_idx end_idx learner_vals w1))"

partial_function (option) delete_loop ::
  "server \<Rightarrow> segment_api \<Rightarrow> learner list \<Rightarrow> int \<Rightarrow> int \<Rightarrow> world \<Rightarrow>
   ((exc + retval) \<times> world) option" where
  "delete_loop srv api learners chunk_size curr_idx w =
     (if curr_idx < int (length learners) then
        (case window_step srv api learners chunk_size curr_idx w of
           (Continue, w') \<Rightarrow>
             delete_loop srv api learners chunk_size (curr_idx + chunk_size) w'
         | (Return, w') \<Rightarrow> Some (Inr NoneVal, w')
         | (Raise e, w') \<Rightarrow> Some (Inl e, w'))
      else Some (Inr NoneVal, w))"

declare delete_loop.simps [code]

definition delete_learners ::
  "server \<Rightarrow> segment_api \<Rightarrow> learner list \<Rightarrow> int \<Rightarrow> int \<Rightarrow> world \<Rightarrow>
   ((exc + retval) \<times> world) option" where
  "delete_learners srv api learners chunk_size beginning_idx w =
     delete_loop srv api learners chunk_size beginning_idx w"

definition delete_learner ::
  "server \<Rightarrow> segment_api \<Rightarrow> learner \<Rightarrow> world \<Rightarrow> ((exc + retval) \<times> world) option" where
  "delete_learner srv api learner w = delete_learners srv api [learner] 1 0 w"

subsection \<open>\<open>get_bulk_delete_status\<close>\<close>

text \<open>
  The function ends after its \<open>LOG.info\<close>: it has no \<open>return\<close> statement, so a call
  that does not raise hands \<open>None\<close> back.
\<close>

definition get_bulk_delete_status ::
  "server \<Rightarrow> segment_api \<Rightarrow> string \<Rightarrow> world \<Rightarrow> (exc + retval) \<times> world" where
  "get_bulk_delete_status srv api bulk_delete_id w =
     (case call_segment_get srv api
             (BULK_DELETE_STATUS_URL (workspace_slug api) bulk_delete_id) w of
        (Inl e, w1) \<Rightarrow> (Inl e, w1)
      | (Inr resp, w1) \<Rightarrow>
          (case json_body resp of
             None \<Rightarrow> (Inl JSONDecodeError, w1)
           | Some resp_json \<Rightarrow> (Inr NoneVal, emit (LogInfoStatus resp_json) w1)))"

subsection \<open>The windows of the specification\<close>

text \<open>
  The specification's partition of a list into consecutive windows of \<open>n\<close> records,
  the last one possibly shorter. It is not part of the code: the code is compared
  with it.
\<close>

fun spec_windows :: "nat \<Rightarrow> 'a list \<Rightarrow> 'a list list" where
  "spec_windows n xs =
     (if n = 0 \<or> xs = [] then [] else take n xs # spec_windows n (drop n xs))"

declare spec_windows.simps [simp del]

text \<open>
  The specification's flattening of one learner: the required identifier fields, then
  the optional identifier field when it is present, as strings.
\<close>

definition spec_flatten :: "learner \<Rightarrow> string list" where
  "spec_flatten l =
     [text_type (the (l ''id'')), text_type (the (l ''original_username''))] @
     (case l ''ecommerce_segment_id'' of None \<Rightarrow> [] | Some v \<Rightarrow> [text_type v])"

text \<open>The requests of a trace, in the order they were sent.\<close>

fun requests_of :: "event list \<Rightarrow> request list" where
  "requests_of [] = []"
| "requests_of (Http r # es) = r # requests_of es"
| "requests_of (e # es) = requests_of es"


subsection \<open>Concrete inputs\<close>

definition api0 :: segment_api where
  "api0 = \<lparr>base_url = ''https://segment/'', auth_token = ''tok'', workspace_slug = ''ws''\<rparr>"

definition world0 :: world where
  "world0 = \<lparr>calls = 0, trace = []\<rparr>"

definition learner_of :: "int \<Rightarrow> string \<Rightarrow> learner" where
  "learner_of i name = [''id'' \<mapsto> PyInt i, ''original_username'' \<mapsto> PyStr name]"

text \<open>Twelve learners, with the identifiers 1 to 12.\<close>

definition learners12 :: "learner list" where
  "learners12 = map (\<lambda>i. learner_of i ''u'') [1, 2, 3, 4, 5, 6, 7, 8, 9, 10, 11, 12]"

definition resp_queued :: response where
  "resp_queued =
     \<lparr>status_code = 200, resp_text = ''{\"regulate_id\": \"r1\"}'',
      json_body = Some (JObj [(''regulate_id'', JStr ''r1'')])\<rparr>"

definition resp_error :: "int \<Rightarrow> response" where
  "resp_error s = \<lparr>status_code = s, resp_text = ''failure'', json_body = None\<rparr>"

definition resp_html :: response where
  "resp_html = \<lparr>status_code = 200, resp_text = ''<html>'', json_body = None\<rparr>"

definition resp_empty :: response where
  "resp_empty = \<lparr>status_code = 200, resp_text = ''{}'', json_body = Some (JObj [])\<rparr>"

text \<open>A server that answers every request with the same response.\<close>

definition srv_const :: "response \<Rightarrow> server" where
  "srv_const r n req = Resp r"

text \<open>A server that answers the first requests from a list, and then with a default.\<close>

definition srv_seq :: "response list \<Rightarrow> response \<Rightarrow> server" where
  "srv_seq rs d n req = Resp (if n < length rs then rs ! n else d)"

section \<open>Properties\<close>

lemma calls_emit [simp]: "calls (emit e w) = calls w"
  by (simp add: emit_def)

lemma trace_emit [simp]: "trace (emit e w) = trace w @ [e]"
  by (simp add: emit_def)

lemma calls_backoff_handler [simp]: "calls (backoff_handler wait tries e w) = calls w"
  by (simp add: backoff_handler_def Let_def split: exc.splits)

lemma on_exception_Inr:
  "target w = (Inr r, w') \<Longrightarrow> on_exception wg c m g target t w = (Inr r, w')"
  by (subst on_exception.simps) simp

lemma on_exception_pass:
  "target w = (Inl e, w') \<Longrightarrow> \<not> c e \<Longrightarrow> on_exception wg c m g target t w = (Inl e, w')"
  by (subst on_exception.simps) simp

lemma on_exception_giveup:
  "target w = (Inl e, w') \<Longrightarrow> g e \<or> m \<le> Suc t \<Longrightarrow>
   on_exception wg c m g target t w = (Inl e, w')"
  by (subst on_exception.simps) simp

lemma on_exception_retry:
  "target w = (Inl e, w') \<Longrightarrow> c e \<Longrightarrow> \<not> g e \<Longrightarrow> Suc t < m \<Longrightarrow>
   on_exception wg c m g target t w =
   on_exception wg c m g target (Suc t)
     (emit (Sleep (next_wait wg t)) (backoff_handler (next_wait wg t) (Suc t) e w'))"
  by (subst on_exception.simps) simp

lemma on_exception_exc:
  "(\<And>w e w'. target w = (Inl e, w') \<Longrightarrow> P e) \<Longrightarrow>
   on_exception wg c m g target t w = (Inl e, w') \<Longrightarrow> P e"
proof (induction wg c m g target t w rule: on_exception.induct)
  case (1 wg c m g target t w)
  show ?case
  proof (cases "target w")
    case (Pair res w1)
    show ?thesis
    proof (cases res)
      case (Inr r)
      with Pair "1.prems" show ?thesis by (simp add: on_exception_Inr)
    next
      case (Inl e1)
      show ?thesis
      proof (cases "c e1 \<and> \<not> g e1 \<and> Suc t < m")
        case True
        with Pair Inl "1.prems" "1.IH" show ?thesis
          by (simp add: on_exception_retry)
      next
        case False
        with Pair Inl have "on_exception wg c m g target t w = (Inl e1, w1)"
          by (subst on_exception.simps) auto
        with "1.prems" Pair Inl show ?thesis by auto
      qed
    qed
  qed
qed


lemma on_exception_unused:
  assumes "\<And>w e w'. target w = (Inl e, w') \<Longrightarrow> \<not> c e"
  shows "on_exception wg c m g target t w = target w"
proof (cases "target w")
  case (Pair res w1)
  then show ?thesis
    using assms [of w _ w1]
    by (cases res) (simp_all add: on_exception_Inr on_exception_pass)
qed


lemma send_request_Resp:
  "srv (calls w) req = Resp r \<Longrightarrow>
   send_request srv req w = (raise_for_status r, emit (Http req) (w\<lparr>calls := Suc (calls w)\<rparr>))"
  by (simp add: send_request_def)

lemma send_request_exc:
  "send_request srv req w = (Inl e, w') \<Longrightarrow>
   (\<exists>r. e = HTTPError r) \<or> e = Timeout \<or> e = ConnectionError"
  by (auto simp: send_request_def Let_def raise_for_status_def split: http_result.splits if_splits)


lemma timeout_layer_exc:
  "on_exception (Constant 30) is_Timeout m g (send_request srv req) t w = (Inl e, w') \<Longrightarrow>
   (\<exists>r. e = HTTPError r) \<or> e = Timeout \<or> e = ConnectionError"
  by (erule on_exception_exc [rotated]) (rule send_request_exc)

lemma http_layer_exc:
  "on_exception Expo is_HTTPError m g
     (on_exception (Constant 30) is_Timeout m' g' (send_request srv req) t') t w = (Inl e, w') \<Longrightarrow>
   (\<exists>r. e = HTTPError r) \<or> e = Timeout \<or> e = ConnectionError"
  by (erule on_exception_exc [rotated]) (rule timeout_layer_exc)

lemma retry_segment_api_send:
  "retry_segment_api (send_request srv req) w =
   on_exception Expo is_HTTPError MAX_TRIES http_status_giveup
     (on_exception (Constant 30) is_Timeout MAX_TRIES (\<lambda>e. False) (send_request srv req) 0) 0 w"
  unfolding retry_segment_api_def
  by (rule on_exception_unused) (auto dest: http_layer_exc)

lemma timeout_layer_Resp:
  "srv (calls w) req = Resp r \<Longrightarrow>
   on_exception (Constant 30) is_Timeout m g (send_request srv req) t w =
   (raise_for_status r, emit (Http req) (w\<lparr>calls := Suc (calls w)\<rparr>))"
  by (cases "raise_for_status r")
     (auto simp: send_request_Resp on_exception_Inr on_exception_pass raise_for_status_def
           split: if_splits)


lemma retry_segment_api_ok:
  assumes "srv (calls w) req = Resp r" and "\<not> (400 \<le> status_code r \<and> status_code r < 600)"
  shows "retry_segment_api (send_request srv req) w =
         (Inr r, emit (Http req) (w\<lparr>calls := Suc (calls w)\<rparr>))"
  using assms
  by (simp add: retry_segment_api_send on_exception_Inr timeout_layer_Resp raise_for_status_def)

lemma retry_segment_api_giveup:
  assumes "srv (calls w) req = Resp r" and "400 \<le> status_code r" and "status_code r < 600"
    and "\<not> (status_code r = 429 \<or> 500 \<le> status_code r)"
  shows "retry_segment_api (send_request srv req) w =
         (Inl (HTTPError r), emit (Http req) (w\<lparr>calls := Suc (calls w)\<rparr>))"
proof -
  have "on_exception (Constant 30) is_Timeout MAX_TRIES (\<lambda>e. False) (send_request srv req) 0 w =
        (Inl (HTTPError r), emit (Http req) (w\<lparr>calls := Suc (calls w)\<rparr>))"
    using assms by (simp add: timeout_layer_Resp raise_for_status_def)
  then show ?thesis
    using assms by (simp add: retry_segment_api_send on_exception_giveup)
qed

text \<open>The world after a retryable HTTP error has been handled.\<close>

lemma http_layer_retry:
  assumes "srv (calls w) req = Resp r" and "status_code r = 429 \<or> 500 \<le> status_code r"
    and "status_code r < 600" and "Suc t < m"
  shows "on_exception Expo is_HTTPError m http_status_giveup
           (on_exception (Constant 30) is_Timeout m' g' (send_request srv req) t') t w =
         on_exception Expo is_HTTPError m http_status_giveup
           (on_exception (Constant 30) is_Timeout m' g' (send_request srv req) t') (Suc t)
           (emit (Sleep (2 ^ t))
              (backoff_handler (2 ^ t) (Suc t) (HTTPError r)
                 (emit (Http req) (w\<lparr>calls := Suc (calls w)\<rparr>))))"
proof -
  have "on_exception (Constant 30) is_Timeout m' g' (send_request srv req) t' w =
        (Inl (HTTPError r), emit (Http req) (w\<lparr>calls := Suc (calls w)\<rparr>))"
    using assms by (auto simp: timeout_layer_Resp raise_for_status_def)
  then show ?thesis
    using assms by (subst on_exception_retry) auto
qed

lemma http_layer_last:
  assumes "srv (calls w) req = Resp r" and "400 \<le> status_code r" and "status_code r < 600"
    and "m \<le> Suc t"
  shows "on_exception Expo is_HTTPError m http_status_giveup
           (on_exception (Constant 30) is_Timeout m' g' (send_request srv req) t') t w =
         (Inl (HTTPError r), emit (Http req) (w\<lparr>calls := Suc (calls w)\<rparr>))"
proof -
  have "on_exception (Constant 30) is_Timeout m' g' (send_request srv req) t' w =
        (Inl (HTTPError r), emit (Http req) (w\<lparr>calls := Suc (calls w)\<rparr>))"
    using assms by (auto simp: timeout_layer_Resp raise_for_status_def)
  then show ?thesis
    using assms by (simp add: on_exception_giveup)
qed



lemma trace_backoff_handler_HTTPError [simp]:
  "trace (backoff_handler wait tries (HTTPError r) w) =
   trace w @ [LogErrorBackoff wait tries, LogErrorTraceback (HTTPError r),
              LogErrorHTTP (status_code r) (resp_text r)]"
  by (simp add: backoff_handler_def Let_def)










lemma ebind_Inr [simp]: "ebind (Inr x) f = f x"
  by (simp add: ebind_def)

lemma ebind_Inl [simp]: "ebind (Inl e) f = Inl e"
  by (simp add: ebind_def)

lemma dict_getitem_Some [simp]: "d k = Some v \<Longrightarrow> dict_getitem d k = Inr v"
  by (simp add: dict_getitem_def)

lemma dict_getitem_None [simp]: "d k = None \<Longrightarrow> dict_getitem d k = Inl (KeyError k)"
  by (simp add: dict_getitem_def)

lemma list_getitem_nonneg:
  "0 \<le> i \<Longrightarrow> i < int (length xs) \<Longrightarrow> list_getitem xs i = Inr (xs ! nat i)"
  by (simp add: list_getitem_def)

lemma required_vals_ok:
  "l ''id'' = Some a \<Longrightarrow> l ''original_username'' = Some b \<Longrightarrow>
   required_vals l REQUIRED_IDENTIFYING_KEYS = Inr [text_type a, text_type b]"
  by (simp add: REQUIRED_IDENTIFYING_KEYS_def)

lemma optional_vals_eq:
  "optional_vals l OPTIONAL_IDENTIFYING_KEYS =
   (case l ''ecommerce_segment_id'' of None \<Rightarrow> [] | Some v \<Rightarrow> [text_type v])"
  by (simp add: OPTIONAL_IDENTIFYING_KEYS_def split: option.splits)

lemma flatten_vals_ok:
  "(\<And>i. i \<in> set idxs \<Longrightarrow> 0 \<le> i \<and> i < int (length learners) \<and>
      (learners ! nat i) ''id'' \<noteq> None \<and> (learners ! nat i) ''original_username'' \<noteq> None) \<Longrightarrow>
   flatten_vals learners idxs acc =
   Inr (acc @ concat (map (\<lambda>i. spec_flatten (learners ! nat i)) idxs))"
proof (induction idxs arbitrary: acc)
  case Nil
  show ?case by simp
next
  case (Cons i idxs)
  from Cons.prems [of i] obtain a b
    where i: "0 \<le> i" "i < int (length learners)"
      and a: "(learners ! nat i) ''id'' = Some a"
      and b: "(learners ! nat i) ''original_username'' = Some b"
    by auto
  have rest: "flatten_vals learners idxs acc' =
     Inr (acc' @ concat (map (\<lambda>i. spec_flatten (learners ! nat i)) idxs))" for acc'
    by (rule Cons.IH) (simp add: Cons.prems)
  show ?case
    using i a b
    by (simp add: list_getitem_nonneg required_vals_ok optional_vals_eq rest spec_flatten_def)
qed

lemma window_map:
  assumes "0 \<le> s" and "e < int (length xs)"
  shows "map (\<lambda>i. xs ! nat i) [s..e] = take (nat (e - s + 1)) (drop (nat s) xs)"
proof (rule nth_equalityI)
  show "length (map (\<lambda>i. xs ! nat i) [s..e]) = length (take (nat (e - s + 1)) (drop (nat s) xs))"
    using assms by auto
next
  fix k assume "k < length (map (\<lambda>i. xs ! nat i) [s..e])"
  then have k: "int k < e - s + 1" by auto
  then have "[s..e] ! k = s + int k" by simp
  moreover have "nat (s + int k) = nat s + k" using assms by (simp add: nat_add_distrib)
  ultimately show "map (\<lambda>i. xs ! nat i) [s..e] ! k = take (nat (e - s + 1)) (drop (nat s) xs) ! k"
    using k assms by auto
qed

lemma flatten_vals_spec:
  assumes "0 \<le> start_idx" and "end_idx < int (length learners)"
    and "\<forall>l \<in> set (take (nat (end_idx - start_idx + 1)) (drop (nat start_idx) learners)).
           l ''id'' \<noteq> None \<and> l ''original_username'' \<noteq> None"
  shows "flatten_vals learners [start_idx..end_idx] [] =
         Inr (concat (map spec_flatten
           (take (nat (end_idx - start_idx + 1)) (drop (nat start_idx) learners))))"
proof -
  let ?win = "take (nat (end_idx - start_idx + 1)) (drop (nat start_idx) learners)"
  have win: "map (\<lambda>i. learners ! nat i) [start_idx..end_idx] = ?win"
    using assms(1,2) by (rule window_map)
  have "(learners ! nat i) ''id'' \<noteq> None \<and> (learners ! nat i) ''original_username'' \<noteq> None"
    if "i \<in> set [start_idx..end_idx]" for i
  proof -
    from that have "learners ! nat i \<in> set (map (\<lambda>i. learners ! nat i) [start_idx..end_idx])"
      by simp
    with win assms(3) show ?thesis by simp
  qed
  then have "flatten_vals learners [start_idx..end_idx] [] =
      Inr ([] @ concat (map (\<lambda>i. spec_flatten (learners ! nat i)) [start_idx..end_idx]))"
    using assms(1,2) by (intro flatten_vals_ok) auto
  also have "map (\<lambda>i. spec_flatten (learners ! nat i)) [start_idx..end_idx] =
      map spec_flatten (map (\<lambda>i. learners ! nat i) [start_idx..end_idx])"
    by simp
  finally show ?thesis
    unfolding win by simp
qed

text \<open>
  C9. In a window \<open>start_idx..end_idx\<close> of learners that all have the two required
  fields, the flattening loop emits, learner by learner in list order, the string of
  \<open>id\<close>, then the string of \<open>original_username\<close>, then the string of
  \<open>ecommerce_segment_id\<close> when that key is present; a learner without the optional
  key contributes only the two required values, and the loop does not raise.
\<close>

theorem flatten_vals_window:
  assumes "0 \<le> start_idx" and "end_idx < int (length learners)"
    and "\<forall>l \<in> set (take (nat (end_idx - start_idx + 1)) (drop (nat start_idx) learners)).
           l ''id'' \<noteq> None \<and> l ''original_username'' \<noteq> None"
  shows "flatten_vals learners [start_idx..end_idx] [] =
         Inr (concat (map
           (\<lambda>l. [text_type (the (l ''id'')), text_type (the (l ''original_username''))] @
                (case l ''ecommerce_segment_id'' of None \<Rightarrow> [] | Some v \<Rightarrow> [text_type v]))
           (take (nat (end_idx - start_idx + 1)) (drop (nat start_idx) learners))))"
  using flatten_vals_spec [OF assms] by (simp add: spec_flatten_def [abs_def])

theorem flatten_vals_window_witness:
  "flatten_vals
     [learner_of 7 ''amy'', (learner_of 8 ''bob'')(''ecommerce_segment_id'' \<mapsto> PyStr ''e8'')]
     [0..1] [] = Inr [''7'', ''amy'', ''8'', ''bob'', ''e8'']"
  using flatten_vals_window [of 0 1
      "[learner_of 7 ''amy'', (learner_of 8 ''bob'')(''ecommerce_segment_id'' \<mapsto> PyStr ''e8'')]"]
  by (simp add: learner_of_def digits.simps)

lemma get_bulk_delete_status_ok:
  assumes "srv (calls w) (get_request api (BULK_DELETE_STATUS_URL (workspace_slug api) rid)) = Resp r"
    and "\<not> (400 \<le> status_code r \<and> status_code r < 600)"
    and "json_body r = Some j"
  shows "get_bulk_delete_status srv api rid w =
         (Inr NoneVal,
          w\<lparr>calls := Suc (calls w),
            trace := trace w @
              [Http (get_request api (BULK_DELETE_STATUS_URL (workspace_slug api) rid)),
               LogInfoStatus j]\<rparr>)"
  using assms
  by (simp add: get_bulk_delete_status_def call_segment_get_def retry_segment_api_ok emit_def)

text \<open>
  C4, as stated, fails: the server answers 200 with a body that parses to
  \<open>{"regulate_id": "r1"}\<close>, and \<open>get_bulk_delete_status\<close> does not hand that
  document back.
\<close>

theorem get_bulk_delete_status_counterexample:
  "json_body resp_queued = Some (JObj [(''regulate_id'', JStr ''r1'')]) \<and>
   fst (get_bulk_delete_status (srv_const resp_queued) api0 ''r1'' world0) \<noteq>
   Inr (JsonVal (JObj [(''regulate_id'', JStr ''r1'')]))"
  using get_bulk_delete_status_ok [of "srv_const resp_queued" world0 api0 "''r1''" resp_queued
      "JObj [(''regulate_id'', JStr ''r1'')]"]
  by (simp add: srv_const_def resp_queued_def)

text \<open>
  C4, amended. When the first answer to the status lookup is not an HTTP error and its
  body parses, \<open>get_bulk_delete_status\<close> sends the one request, logs the parsed
  document and returns \<open>None\<close>: the document reaches the log, not the caller.
\<close>

theorem get_bulk_delete_status_logs:
  assumes "srv (calls w) (get_request api (BULK_DELETE_STATUS_URL (workspace_slug api) rid)) = Resp r"
    and "\<not> (400 \<le> status_code r \<and> status_code r < 600)"
    and "json_body r = Some j"
  shows "get_bulk_delete_status srv api rid w =
         (Inr NoneVal,
          w\<lparr>calls := Suc (calls w),
            trace := trace w @
              [Http (get_request api (BULK_DELETE_STATUS_URL (workspace_slug api) rid)),
               LogInfoStatus j]\<rparr>)"
  using assms by (rule get_bulk_delete_status_ok)

theorem get_bulk_delete_status_logs_witness:
  "get_bulk_delete_status (srv_const resp_queued) api0 ''r1'' world0 =
   (Inr NoneVal,
    \<lparr>calls = 1,
     trace = [Http (HttpGet ''https://segment/v1beta/workspaces/ws/regulations/r1''
                      [(''Authorization'', ''Bearer tok'')]),
              LogInfoStatus (JObj [(''regulate_id'', JStr ''r1'')])]\<rparr>)"
  using get_bulk_delete_status_logs [of "srv_const resp_queued" world0 api0 "''r1''" resp_queued
      "JObj [(''regulate_id'', JStr ''r1'')]"]
  by (simp add: srv_const_def resp_queued_def world0_def api0_def get_request_def
      BULK_DELETE_STATUS_URL_def)

subsection \<open>One iteration of the loop\<close>

lemma window_step_args_fail:
  assumes "end_idx = min (curr_idx + chunk_size - 1) (int (length learners) - 1)"
    and "attempt_args learners curr_idx end_idx = Inl e"
  shows "window_step srv api learners chunk_size curr_idx w = (Raise e, w)"
  using assms by (simp add: window_step_def Let_def)

lemma window_step_flatten_fail:
  assumes "end_idx = min (curr_idx + chunk_size - 1) (int (length learners) - 1)"
    and "attempt_args learners curr_idx end_idx = Inr (a, b, c, d)"
    and "flatten_vals learners [curr_idx..end_idx] [] = Inl e"
  shows "window_step srv api learners chunk_size curr_idx w =
         (Raise e, emit (LogInfoAttempt curr_idx end_idx a b c d) w)"
  using assms by (simp add: window_step_def Let_def)

lemma window_step_too_many:
  assumes "end_idx = min (curr_idx + chunk_size - 1) (int (length learners) - 1)"
    and "attempt_args learners curr_idx end_idx = Inr (a, b, c, d)"
    and "flatten_vals learners [curr_idx..end_idx] [] = Inr learner_vals"
    and "MAXIMUM_USERS_IN_DELETE_REQUEST \<le> length learner_vals"
  shows "window_step srv api learners chunk_size curr_idx w =
         (Return, emit (LogErrorTooMany (length learner_vals))
                    (emit (LogInfoAttempt curr_idx end_idx a b c d) w))"
  using assms by (simp add: window_step_def Let_def)

lemma window_step_submit:
  assumes "end_idx = min (curr_idx + chunk_size - 1) (int (length learners) - 1)"
    and "attempt_args learners curr_idx end_idx = Inr (a, b, c, d)"
    and "flatten_vals learners [curr_idx..end_idx] [] = Inr learner_vals"
    and "length learner_vals < MAXIMUM_USERS_IN_DELETE_REQUEST"
  shows "window_step srv api learners chunk_size curr_idx w =
         submit srv api curr_idx end_idx learner_vals
           (emit (LogInfoAttempt curr_idx end_idx a b c d) w)"
  using assms by (simp add: window_step_def Let_def)

subsection \<open>The loop\<close>

lemma delete_loop_done:
  "int (length learners) \<le> curr_idx \<Longrightarrow>
   delete_loop srv api learners chunk_size curr_idx w = Some (Inr NoneVal, w)"
  by (subst delete_loop.simps) simp

lemma delete_loop_Return:
  "curr_idx < int (length learners) \<Longrightarrow>
   window_step srv api learners chunk_size curr_idx w = (Return, w') \<Longrightarrow>
   delete_loop srv api learners chunk_size curr_idx w = Some (Inr NoneVal, w')"
  by (subst delete_loop.simps) simp

lemma delete_loop_Raise:
  "curr_idx < int (length learners) \<Longrightarrow>
   window_step srv api learners chunk_size curr_idx w = (Raise e, w') \<Longrightarrow>
   delete_loop srv api learners chunk_size curr_idx w = Some (Inl e, w')"
  by (subst delete_loop.simps) simp

lemma delete_loop_Continue:
  "curr_idx < int (length learners) \<Longrightarrow>
   window_step srv api learners chunk_size curr_idx w = (Continue, w') \<Longrightarrow>
   delete_loop srv api learners chunk_size curr_idx w =
   delete_loop srv api learners chunk_size (curr_idx + chunk_size) w'"
  by (subst delete_loop.simps) simp

subsection \<open>Windows inside the list\<close>

lemma window_take:
  assumes "0 \<le> s" and "s < int (length xs)" and "1 \<le> c"
    and "e = min (s + c - 1) (int (length xs) - 1)"
  shows "take (nat (e - s + 1)) (drop (nat s) xs) = take (nat c) (drop (nat s) xs)"
proof (cases "s + c - 1 \<le> int (length xs) - 1")
  case True
  with assms show ?thesis by (simp add: min_def)
next
  case False
  with assms have e: "e = int (length xs) - 1" by (simp add: min_def)
  have "length (drop (nat s) xs) \<le> nat (e - s + 1)"
    using assms e by simp
  moreover have "length (drop (nat s) xs) \<le> nat c"
    using assms False by simp
  ultimately show ?thesis by simp
qed

lemma window_bounds:
  assumes "0 \<le> s" and "s < int (length xs)" and "1 \<le> c"
    and "e = min (s + c - 1) (int (length xs) - 1)"
  shows "s \<le> e" and "e < int (length xs)" and "0 \<le> e"
  using assms by (auto simp: min_def)

lemma attempt_args_ok:
  assumes "0 \<le> s" "s < int (length learners)" "0 \<le> e" "e < int (length learners)"
    and "(learners ! nat s) ''id'' = Some a" "(learners ! nat s) ''original_username'' = Some b"
    and "(learners ! nat e) ''id'' = Some c" "(learners ! nat e) ''original_username'' = Some d"
  shows "attempt_args learners s e = Inr (a, b, c, d)"
  using assms by (simp add: attempt_args_def list_getitem_nonneg)

lemma attempt_args_exc:
  assumes "0 \<le> s" "s < int (length learners)" "0 \<le> e" "e < int (length learners)"
    and "attempt_args learners s e = Inl x"
  shows "\<exists>k \<in> set REQUIRED_IDENTIFYING_KEYS. x = KeyError k"
  using assms
  by (auto simp: attempt_args_def list_getitem_nonneg dict_getitem_def ebind_def
        REQUIRED_IDENTIFYING_KEYS_def split: option.splits)

lemma required_vals_exc:
  "required_vals l ks = Inl x \<Longrightarrow> \<exists>k \<in> set ks. x = KeyError k"
  by (induction ks arbitrary: x)
     (auto simp: dict_getitem_def ebind_def split: option.splits sum.splits)

lemma required_vals_missing:
  "k \<in> set ks \<Longrightarrow> l k = None \<Longrightarrow> \<exists>x. required_vals l ks = Inl x"
  by (induction ks) (auto simp: dict_getitem_def ebind_def split: option.splits sum.splits)

lemma flatten_vals_exc:
  "(\<And>i. i \<in> set idxs \<Longrightarrow> 0 \<le> i \<and> i < int (length learners)) \<Longrightarrow>
   flatten_vals learners idxs acc = Inl x \<Longrightarrow>
   \<exists>k \<in> set REQUIRED_IDENTIFYING_KEYS. x = KeyError k"
proof (induction idxs arbitrary: acc)
  case Nil
  then show ?case by simp
next
  case (Cons i idxs)
  from Cons.prems(1) [of i] have i: "list_getitem learners i = Inr (learners ! nat i)"
    by (simp add: list_getitem_nonneg)
  show ?case
  proof (cases "required_vals (learners ! nat i) REQUIRED_IDENTIFYING_KEYS")
    case (Inl y)
    with Cons.prems(2) i have "x = y" by simp
    with Inl show ?thesis by (auto dest: required_vals_exc)
  next
    case (Inr rs)
    with Cons.prems(2) i have
      "flatten_vals learners idxs
         (acc @ rs @ optional_vals (learners ! nat i) OPTIONAL_IDENTIFYING_KEYS) = Inl x"
      by simp
    then show ?thesis
      by (rule Cons.IH [rotated]) (simp add: Cons.prems(1))
  qed
qed

lemma flatten_vals_missing:
  "(\<And>i. i \<in> set idxs \<Longrightarrow> 0 \<le> i \<and> i < int (length learners)) \<Longrightarrow>
   j \<in> set idxs \<Longrightarrow>
   (learners ! nat j) ''id'' = None \<or> (learners ! nat j) ''original_username'' = None \<Longrightarrow>
   \<exists>x. flatten_vals learners idxs acc = Inl x"
proof (induction idxs arbitrary: acc)
  case Nil
  then show ?case by simp
next
  case (Cons i idxs)
  from Cons.prems(1) [of i] have i: "list_getitem learners i = Inr (learners ! nat i)"
    by (simp add: list_getitem_nonneg)
  show ?case
  proof (cases "required_vals (learners ! nat i) REQUIRED_IDENTIFYING_KEYS")
    case (Inl y)
    with i show ?thesis by simp
  next
    case (Inr rs)
    have "j \<noteq> i"
    proof
      assume "j = i"
      with Cons.prems(3) obtain k where "k \<in> set REQUIRED_IDENTIFYING_KEYS"
        and "(learners ! nat i) k = None"
        by (auto simp: REQUIRED_IDENTIFYING_KEYS_def)
      then have "\<exists>x. required_vals (learners ! nat i) REQUIRED_IDENTIFYING_KEYS = Inl x"
        by (rule required_vals_missing)
      with Inr show False by simp
    qed
    with Cons.prems(2) have "j \<in> set idxs" by simp
    then have "\<exists>x. flatten_vals learners idxs
        (acc @ rs @ optional_vals (learners ! nat i) OPTIONAL_IDENTIFYING_KEYS) = Inl x"
      using Cons.prems(1,3) by (intro Cons.IH) auto
    with i Inr show ?thesis by simp
  qed
qed

text \<open>
  C8. In a window that starts inside the list, with a positive chunk size, a learner
  without \<open>id\<close> or without \<open>original_username\<close> makes \<open>delete_learners\<close> raise
  \<open>KeyError\<close> for a required key: either while the arguments of the first log line
  are read (nothing is logged) or in the flattening loop (only that line is logged).
  No request is sent for the window.
\<close>

theorem missing_required_field_raises:
  assumes "0 \<le> curr_idx" and "curr_idx < int (length learners)" and "1 \<le> chunk_size"
    and "\<exists>l \<in> set (take (nat chunk_size) (drop (nat curr_idx) learners)).
           l ''id'' = None \<or> l ''original_username'' = None"
  shows "\<exists>k w'. k \<in> set REQUIRED_IDENTIFYING_KEYS \<and>
           delete_loop srv api learners chunk_size curr_idx w = Some (Inl (KeyError k), w') \<and>
           calls w' = calls w \<and>
           (trace w' = trace w \<or>
            (\<exists>a b c d. trace w' = trace w @
               [LogInfoAttempt curr_idx
                  (min (curr_idx + chunk_size - 1) (int (length learners) - 1)) a b c d]))"
proof -
  define e where "e = min (curr_idx + chunk_size - 1) (int (length learners) - 1)"
  note b = window_bounds [OF assms(1-3) e_def]
  show ?thesis
  proof (cases "attempt_args learners curr_idx e")
    case (Inl x)
    with assms b obtain k where k: "k \<in> set REQUIRED_IDENTIFYING_KEYS" "x = KeyError k"
      by (blast dest: attempt_args_exc [rotated -1])
    from Inl have "window_step srv api learners chunk_size curr_idx w = (Raise x, w)"
      by (rule window_step_args_fail [OF e_def])
    with assms(2) have "delete_loop srv api learners chunk_size curr_idx w = Some (Inl x, w)"
      by (rule delete_loop_Raise)
    with k show ?thesis by auto
  next
    case (Inr args)
    obtain a b' c d where args: "args = (a, b', c, d)" by (cases args) auto
    have idx: "0 \<le> i \<and> i < int (length learners)" if "i \<in> set [curr_idx..e]" for i
      using that assms(1) b by auto
    have "take (nat chunk_size) (drop (nat curr_idx) learners) =
          map (\<lambda>i. learners ! nat i) [curr_idx..e]"
      using window_take [OF assms(1-3) e_def] window_map [OF assms(1) b(2)] by simp
    with assms(4) obtain j where j: "j \<in> set [curr_idx..e]"
      "(learners ! nat j) ''id'' = None \<or> (learners ! nat j) ''original_username'' = None"
      by auto
    from flatten_vals_missing [OF idx j] obtain x
      where x: "flatten_vals learners [curr_idx..e] [] = Inl x" by blast
    from flatten_vals_exc [OF idx x] obtain k
      where k: "k \<in> set REQUIRED_IDENTIFYING_KEYS" "x = KeyError k" by blast
    from Inr args x have "window_step srv api learners chunk_size curr_idx w =
        (Raise x, emit (LogInfoAttempt curr_idx e a b' c d) w)"
      by (intro window_step_flatten_fail [OF e_def]) simp_all
    with assms(2) have "delete_loop srv api learners chunk_size curr_idx w =
        Some (Inl x, emit (LogInfoAttempt curr_idx e a b' c d) w)"
      by (rule delete_loop_Raise)
    with k show ?thesis unfolding e_def by auto
  qed
qed

theorem missing_required_field_raises_witness:
  "\<exists>k w'. k \<in> set REQUIRED_IDENTIFYING_KEYS \<and>
     delete_loop (srv_const resp_queued) api0
       [learner_of 1 ''amy'', [''id'' \<mapsto> PyInt 2], learner_of 3 ''cat''] 3 0 world0 =
       Some (Inl (KeyError k), w') \<and>
     calls w' = calls world0 \<and>
     (trace w' = trace world0 \<or>
      (\<exists>a b c d. trace w' = trace world0 @ [LogInfoAttempt 0 2 a b c d]))"
  using missing_required_field_raises [of 0
      "[learner_of 1 ''amy'', [''id'' \<mapsto> PyInt 2], learner_of 3 ''cat'']" 3
      "srv_const resp_queued" api0 world0]
  by simp

lemma window_prepared:
  assumes "0 \<le> s" and "s < int (length learners)" and "1 \<le> c"
    and "e = min (s + c - 1) (int (length learners) - 1)"
    and "\<forall>l \<in> set (take (nat c) (drop (nat s) learners)).
           l ''id'' \<noteq> None \<and> l ''original_username'' \<noteq> None"
  shows "attempt_args learners s e =
           Inr (the ((learners ! nat s) ''id''), the ((learners ! nat s) ''original_username''),
                the ((learners ! nat e) ''id''), the ((learners ! nat e) ''original_username''))"
    and "flatten_vals learners [s..e] [] =
           Inr (concat (map spec_flatten (take (nat c) (drop (nat s) learners))))"
proof -
  note b = window_bounds [OF assms(1-4)]
  have win: "take (nat c) (drop (nat s) learners) = map (\<lambda>i. learners ! nat i) [s..e]"
    using window_take [OF assms(1-4)] window_map [OF assms(1) b(2)] by simp
  have keys: "(learners ! nat i) ''id'' \<noteq> None \<and> (learners ! nat i) ''original_username'' \<noteq> None"
    if "i \<in> set [s..e]" for i
    using that assms(5) unfolding win by simp
  from keys [of s] keys [of e] b assms(1,2)
  show "attempt_args learners s e =
           Inr (the ((learners ! nat s) ''id''), the ((learners ! nat s) ''original_username''),
                the ((learners ! nat e) ''id''), the ((learners ! nat e) ''original_username''))"
    by (intro attempt_args_ok) auto
  have "flatten_vals learners [s..e] [] =
        Inr (concat (map spec_flatten (take (nat (e - s + 1)) (drop (nat s) learners))))"
    using assms(1) b(2) assms(5) window_take [OF assms(1-4)]
    by (intro flatten_vals_spec) simp_all
  then show "flatten_vals learners [s..e] [] =
           Inr (concat (map spec_flatten (take (nat c) (drop (nat s) learners))))"
    using window_take [OF assms(1-4)] by simp
qed

lemma ceiling_run:
  assumes "0 \<le> curr_idx" and "curr_idx < int (length learners)" and "1 \<le> chunk_size"
    and "end_idx = min (curr_idx + chunk_size - 1) (int (length learners) - 1)"
    and "\<forall>l \<in> set (take (nat chunk_size) (drop (nat curr_idx) learners)).
           l ''id'' \<noteq> None \<and> l ''original_username'' \<noteq> None"
    and "MAXIMUM_USERS_IN_DELETE_REQUEST \<le>
           length (concat (map spec_flatten (take (nat chunk_size) (drop (nat curr_idx) learners))))"
  shows "delete_loop srv api learners chunk_size curr_idx w =
         Some (Inr NoneVal,
           w\<lparr>trace := trace w @
             [LogInfoAttempt curr_idx end_idx
                (the ((learners ! nat curr_idx) ''id''))
                (the ((learners ! nat curr_idx) ''original_username''))
                (the ((learners ! nat end_idx) ''id''))
                (the ((learners ! nat end_idx) ''original_username'')),
              LogErrorTooMany (length (concat (map spec_flatten
                (take (nat chunk_size) (drop (nat curr_idx) learners)))))]\<rparr>)"
proof -
  note p = window_prepared [OF assms(1-5)]
  have "window_step srv api learners chunk_size curr_idx w =
        (Return, emit (LogErrorTooMany (length (concat (map spec_flatten
                  (take (nat chunk_size) (drop (nat curr_idx) learners))))))
           (emit (LogInfoAttempt curr_idx end_idx
                (the ((learners ! nat curr_idx) ''id''))
                (the ((learners ! nat curr_idx) ''original_username''))
                (the ((learners ! nat end_idx) ''id''))
                (the ((learners ! nat end_idx) ''original_username''))) w))"
    using assms(4) p assms(6) by (rule window_step_too_many)
  with assms(2) show ?thesis
    by (simp add: delete_loop_Return emit_def)
qed

text \<open>
  C3, amended. When the window at \<open>curr_idx\<close> flattens to at least 5000 values,
  \<open>delete_learners\<close> stops there: it logs, at error level, that too many values
  were about to be sent, and it returns \<open>None\<close>, as a run without any error does. It
  does not raise, nothing is sent and nothing is slept (there is no retry), and no
  later window is looked at: the run ends with the log line of the window followed by
  the error record. The error is in the log; no error value reaches the caller.
\<close>

theorem ceiling_aborts_with_error_log:
  assumes "0 \<le> curr_idx" and "curr_idx < int (length learners)" and "1 \<le> chunk_size"
    and "end_idx = min (curr_idx + chunk_size - 1) (int (length learners) - 1)"
    and "\<forall>l \<in> set (take (nat chunk_size) (drop (nat curr_idx) learners)).
           l ''id'' \<noteq> None \<and> l ''original_username'' \<noteq> None"
    and "MAXIMUM_USERS_IN_DELETE_REQUEST \<le>
           length (concat (map spec_flatten (take (nat chunk_size) (drop (nat curr_idx) learners))))"
  shows "delete_loop srv api learners chunk_size curr_idx w =
         Some (Inr NoneVal,
           w\<lparr>trace := trace w @
             [LogInfoAttempt curr_idx end_idx
                (the ((learners ! nat curr_idx) ''id''))
                (the ((learners ! nat curr_idx) ''original_username''))
                (the ((learners ! nat end_idx) ''id''))
                (the ((learners ! nat end_idx) ''original_username'')),
              LogErrorTooMany (length (concat (map spec_flatten
                (take (nat chunk_size) (drop (nat curr_idx) learners)))))]\<rparr>)"
  using assms by (rule ceiling_run)

theorem ceiling_aborts_with_error_log_witness:
  "delete_loop (srv_const resp_queued) api0 (replicate 2500 (learner_of 1 ''u'')) 2500 0 world0 =
   Some (Inr NoneVal,
     \<lparr>calls = 0,
      trace = [LogInfoAttempt 0 2499 (PyInt 1) (PyStr ''u'') (PyInt 1) (PyStr ''u''),
               LogErrorTooMany 5000]\<rparr>)"
  using ceiling_aborts_with_error_log [of 0 "replicate 2500 (learner_of 1 ''u'')" 2500 2499
      "srv_const resp_queued" api0 world0]
  by (simp add: learner_of_def spec_flatten_def digits.simps length_concat sum_list_replicate
      MAXIMUM_USERS_IN_DELETE_REQUEST_def world0_def)

subsection \<open>Submitting a window\<close>

lemma submit_http_error:
  assumes "call_segment_post srv api (BULK_DELETE_URL (workspace_slug api))
             (delete_params learner_vals) w = (Inl (HTTPError r), w1)"
  shows "submit srv api start_idx end_idx learner_vals w =
         (Raise (Exception_err start_idx end_idx (Text [])),
          emit (LogErrorWrapped start_idx end_idx (Text [])) (emit (LogException (HTTPError r)) w1))"
  using assms by (simp add: submit_def wrap_error_def)

lemma submit_decode_error:
  assumes "call_segment_post srv api (BULK_DELETE_URL (workspace_slug api))
             (delete_params learner_vals) w = (Inr resp, w1)"
    and "json_body resp = None"
  shows "submit srv api start_idx end_idx learner_vals w =
         (Raise (Exception_err start_idx end_idx (Text (resp_text resp))),
          emit (LogErrorWrapped start_idx end_idx (Text (resp_text resp)))
            (emit (LogException JSONDecodeError) w1))"
  using assms by (simp add: submit_def wrap_error_def)

lemma submit_missing_field:
  assumes "call_segment_post srv api (BULK_DELETE_URL (workspace_slug api))
             (delete_params learner_vals) w = (Inr resp, w1)"
    and "json_body resp = Some resp_json"
    and "json_getitem resp_json ''regulate_id'' = Inl x"
  shows "submit srv api start_idx end_idx learner_vals w =
         (Raise (Exception_err start_idx end_idx (Parsed resp_json)),
          emit (LogErrorWrapped start_idx end_idx (Parsed resp_json)) (emit (LogException x) w1))"
  using assms by (simp add: submit_def wrap_error_def)

lemma submit_queued:
  assumes "call_segment_post srv api (BULK_DELETE_URL (workspace_slug api))
             (delete_params learner_vals) w = (Inr resp, w1)"
    and "json_body resp = Some resp_json"
    and "json_getitem resp_json ''regulate_id'' = Inr rid"
  shows "submit srv api start_idx end_idx learner_vals w = (Continue, emit (LogInfoQueued rid) w1)"
  using assms by (simp add: submit_def)

lemma submit_ok:
  assumes "srv (calls w) (post_request api (BULK_DELETE_URL (workspace_slug api))
             (delete_params learner_vals)) = Resp r"
    and "\<not> (400 \<le> status_code r \<and> status_code r < 600)"
    and "json_body r = Some resp_json"
    and "json_getitem resp_json ''regulate_id'' = Inr rid"
  shows "submit srv api start_idx end_idx learner_vals w =
         (Continue,
          w\<lparr>calls := Suc (calls w),
            trace := trace w @
              [Http (post_request api (BULK_DELETE_URL (workspace_slug api))
                       (delete_params learner_vals)),
               LogInfoQueued rid]\<rparr>)"
proof -
  have "call_segment_post srv api (BULK_DELETE_URL (workspace_slug api))
          (delete_params learner_vals) w =
        (Inr r, emit (Http (post_request api (BULK_DELETE_URL (workspace_slug api))
                       (delete_params learner_vals))) (w\<lparr>calls := Suc (calls w)\<rparr>))"
    unfolding call_segment_post_def using assms(1,2) by (rule retry_segment_api_ok)
  from submit_queued [OF this assms(3,4)] show ?thesis
    by (simp add: emit_def)
qed

lemma one_learner_args:
  "attempt_args [learner_of 1 ''u''] 0 0 = Inr (PyInt 1, PyStr ''u'', PyInt 1, PyStr ''u'')"
  by (simp add: attempt_args_def list_getitem_def learner_of_def)

lemma one_learner_vals: "flatten_vals [learner_of 1 ''u''] [0..0] [] = Inr [''1'', ''u'']"
  by (simp add: list_getitem_def learner_of_def REQUIRED_IDENTIFYING_KEYS_def
      OPTIONAL_IDENTIFYING_KEYS_def digits.simps)

lemma one_learner_step:
  "window_step (srv_const resp_queued) api0 [learner_of 1 ''u''] 1 0 world0 =
   (Continue,
     \<lparr>calls = 1,
      trace =
        [LogInfoAttempt 0 0 (PyInt 1) (PyStr ''u'') (PyInt 1) (PyStr ''u''),
         Http (post_request api0 (BULK_DELETE_URL ''ws'') (delete_params [''1'', ''u''])),
         LogInfoQueued (JStr ''r1'')]\<rparr>)"
proof -
  let ?w1 = "emit (LogInfoAttempt 0 0 (PyInt 1) (PyStr ''u'') (PyInt 1) (PyStr ''u'')) world0"
  have "submit (srv_const resp_queued) api0 0 0 [''1'', ''u''] ?w1 =
        (Continue,
          ?w1\<lparr>calls := Suc (calls ?w1),
            trace := trace ?w1 @
              [Http (post_request api0 (BULK_DELETE_URL (workspace_slug api0))
                       (delete_params [''1'', ''u''])),
               LogInfoQueued (JStr ''r1'')]\<rparr>)"
    by (rule submit_ok [where r = resp_queued and resp_json = "JObj [(''regulate_id'', JStr ''r1'')]"])
       (simp_all add: srv_const_def resp_queued_def)
  moreover have "window_step (srv_const resp_queued) api0 [learner_of 1 ''u''] 1 0 world0 =
      submit (srv_const resp_queued) api0 0 0 [''1'', ''u''] ?w1"
    by (rule window_step_submit [OF _ one_learner_args one_learner_vals])
       (simp_all add: MAXIMUM_USERS_IN_DELETE_REQUEST_def)
  ultimately show ?thesis
    by (simp add: world0_def api0_def emit_def)
qed

lemma one_learner_run:
  "delete_loop (srv_const resp_queued) api0 [learner_of 1 ''u''] 1 0 world0 =
   Some (Inr NoneVal,
     \<lparr>calls = 1,
      trace =
        [LogInfoAttempt 0 0 (PyInt 1) (PyStr ''u'') (PyInt 1) (PyStr ''u''),
         Http (post_request api0 (BULK_DELETE_URL ''ws'') (delete_params [''1'', ''u''])),
         LogInfoQueued (JStr ''r1'')]\<rparr>)"
  using delete_loop_Continue [OF _ one_learner_step]
  by (simp add: delete_loop_done)

text \<open>
  C3, as stated, fails: with 2500 learners and \<open>chunk_size = 2500\<close> the only window
  flattens to 5000 values and the call hands \<open>None\<close> back, which is also what the
  call hands back for one learner whose deletion is queued. Nothing reports the error
  to the caller.
\<close>

theorem ceiling_report_counterexample:
  "map_option fst
     (delete_learners (srv_const resp_queued) api0 (replicate 2500 (learner_of 1 ''u'')) 2500 0
        world0) = Some (Inr NoneVal) \<and>
   map_option fst
     (delete_learners (srv_const resp_queued) api0 [learner_of 1 ''u''] 1 0 world0) =
   Some (Inr NoneVal)"
  using ceiling_run [of 0 "replicate 2500 (learner_of 1 ''u'')" 2500 2499
      "srv_const resp_queued" api0 world0] one_learner_run
  by (simp add: delete_learners_def learner_of_def spec_flatten_def digits.simps length_concat
      sum_list_replicate MAXIMUM_USERS_IN_DELETE_REQUEST_def)

text \<open>
  C6, as stated, fails: the server answers 404 with the body \<open>failure\<close>; the
  exception that \<open>delete_learners\<close> raises is built from the indices and the empty
  string, not from the body of the response.
\<close>

theorem failed_submission_counterexample:
  "resp_text (resp_error 404) = ''failure'' \<and>
   map_option fst
     (delete_learners (srv_const (resp_error 404)) api0 [learner_of 1 ''u''] 1 0 world0) =
   Some (Inl (Exception_err 0 0 (Text [])))"
proof -
  let ?req = "post_request api0 (BULK_DELETE_URL (workspace_slug api0))
                (delete_params [''1'', ''u''])"
  let ?w1 = "emit (LogInfoAttempt 0 0 (PyInt 1) (PyStr ''u'') (PyInt 1) (PyStr ''u'')) world0"
  have "call_segment_post (srv_const (resp_error 404)) api0 (BULK_DELETE_URL (workspace_slug api0))
          (delete_params [''1'', ''u'']) ?w1 =
        (Inl (HTTPError (resp_error 404)), emit (Http ?req) (?w1\<lparr>calls := Suc (calls ?w1)\<rparr>))"
    unfolding call_segment_post_def
    by (rule retry_segment_api_giveup) (simp_all add: srv_const_def resp_error_def)
  then have "submit (srv_const (resp_error 404)) api0 0 0 [''1'', ''u''] ?w1 =
      (Raise (Exception_err 0 0 (Text [])),
       emit (LogErrorWrapped 0 0 (Text []))
         (emit (LogException (HTTPError (resp_error 404)))
            (emit (Http ?req) (?w1\<lparr>calls := Suc (calls ?w1)\<rparr>))))"
    by (rule submit_http_error)
  moreover have "window_step (srv_const (resp_error 404)) api0 [learner_of 1 ''u''] 1 0 world0 =
      submit (srv_const (resp_error 404)) api0 0 0 [''1'', ''u''] ?w1"
    by (rule window_step_submit)
       (simp_all add: attempt_args_def list_getitem_def learner_of_def
          REQUIRED_IDENTIFYING_KEYS_def OPTIONAL_IDENTIFYING_KEYS_def digits.simps
          MAXIMUM_USERS_IN_DELETE_REQUEST_def)
  ultimately show ?thesis
    by (simp add: delete_learners_def delete_loop_Raise resp_error_def)
qed

text \<open>
  C6, amended. In a window that reaches its submission, a failure is wrapped as
  \<open>Exception(err)\<close> with the start and end indices of the window, and the run ends
  with the two log records of the \<open>except\<close> clause: no later window is submitted.
  The response content in the message is the empty string when the call ended in an
  HTTP error, the text of the response when its body does not decode, and the parsed
  document when it lacks \<open>regulate_id\<close> (or is not a dict).
\<close>

theorem failed_submission_is_wrapped:
  assumes "curr_idx < int (length learners)"
    and "end_idx = min (curr_idx + chunk_size - 1) (int (length learners) - 1)"
    and "attempt_args learners curr_idx end_idx = Inr (a, b, c, d)"
    and "flatten_vals learners [curr_idx..end_idx] [] = Inr learner_vals"
    and "length learner_vals < MAXIMUM_USERS_IN_DELETE_REQUEST"
    and "call_segment_post srv api (BULK_DELETE_URL (workspace_slug api))
           (delete_params learner_vals) (emit (LogInfoAttempt curr_idx end_idx a b c d) w) =
         (res, w1)"
  shows
    "(\<forall>r. res = Inl (HTTPError r) \<longrightarrow>
        delete_loop srv api learners chunk_size curr_idx w =
        Some (Inl (Exception_err curr_idx end_idx (Text [])),
              emit (LogErrorWrapped curr_idx end_idx (Text []))
                (emit (LogException (HTTPError r)) w1)))
     \<and> (\<forall>resp. res = Inr resp \<and> json_body resp = None \<longrightarrow>
        delete_loop srv api learners chunk_size curr_idx w =
        Some (Inl (Exception_err curr_idx end_idx (Text (resp_text resp))),
              emit (LogErrorWrapped curr_idx end_idx (Text (resp_text resp)))
                (emit (LogException JSONDecodeError) w1)))
     \<and> (\<forall>resp resp_json x.
          res = Inr resp \<and> json_body resp = Some resp_json \<and>
          json_getitem resp_json ''regulate_id'' = Inl x \<longrightarrow>
        delete_loop srv api learners chunk_size curr_idx w =
        Some (Inl (Exception_err curr_idx end_idx (Parsed resp_json)),
              emit (LogErrorWrapped curr_idx end_idx (Parsed resp_json))
                (emit (LogException x) w1)))"
proof -
  have step: "window_step srv api learners chunk_size curr_idx w =
      submit srv api curr_idx end_idx learner_vals (emit (LogInfoAttempt curr_idx end_idx a b c d) w)"
    using assms(2-5) by (rule window_step_submit)
  show ?thesis
  proof (intro conjI allI impI)
    fix r assume "res = Inl (HTTPError r)"
    with assms(6) step have "window_step srv api learners chunk_size curr_idx w =
        (Raise (Exception_err curr_idx end_idx (Text [])),
         emit (LogErrorWrapped curr_idx end_idx (Text [])) (emit (LogException (HTTPError r)) w1))"
      by (simp add: submit_http_error)
    with assms(1) show "delete_loop srv api learners chunk_size curr_idx w =
        Some (Inl (Exception_err curr_idx end_idx (Text [])),
              emit (LogErrorWrapped curr_idx end_idx (Text []))
                (emit (LogException (HTTPError r)) w1))"
      by (rule delete_loop_Raise)
  next
    fix resp assume "res = Inr resp \<and> json_body resp = None"
    with assms(6) step have "window_step srv api learners chunk_size curr_idx w =
        (Raise (Exception_err curr_idx end_idx (Text (resp_text resp))),
         emit (LogErrorWrapped curr_idx end_idx (Text (resp_text resp)))
           (emit (LogException JSONDecodeError) w1))"
      by (simp add: submit_decode_error)
    with assms(1) show "delete_loop srv api learners chunk_size curr_idx w =
        Some (Inl (Exception_err curr_idx end_idx (Text (resp_text resp))),
              emit (LogErrorWrapped curr_idx end_idx (Text (resp_text resp)))
                (emit (LogException JSONDecodeError) w1))"
      by (rule delete_loop_Raise)
  next
    fix resp resp_json x
    assume "res = Inr resp \<and> json_body resp = Some resp_json \<and>
            json_getitem resp_json ''regulate_id'' = Inl x"
    with assms(6) step have "window_step srv api learners chunk_size curr_idx w =
        (Raise (Exception_err curr_idx end_idx (Parsed resp_json)),
         emit (LogErrorWrapped curr_idx end_idx (Parsed resp_json)) (emit (LogException x) w1))"
      by (simp add: submit_missing_field)
    with assms(1) show "delete_loop srv api learners chunk_size curr_idx w =
        Some (Inl (Exception_err curr_idx end_idx (Parsed resp_json)),
              emit (LogErrorWrapped curr_idx end_idx (Parsed resp_json))
                (emit (LogException x) w1))"
      by (rule delete_loop_Raise)
  qed
qed


theorem failed_submission_is_wrapped_witness:
  "map_option fst (delete_loop (srv_const (resp_error 404)) api0 [learner_of 1 ''u''] 1 0 world0) =
     Some (Inl (Exception_err 0 0 (Text [])))
   \<and> map_option fst (delete_loop (srv_const resp_html) api0 [learner_of 1 ''u''] 1 0 world0) =
     Some (Inl (Exception_err 0 0 (Text ''<html>'')))
   \<and> map_option fst (delete_loop (srv_const resp_empty) api0 [learner_of 1 ''u''] 1 0 world0) =
     Some (Inl (Exception_err 0 0 (Parsed (JObj []))))"
proof -
  let ?w1 = "emit (LogInfoAttempt 0 0 (PyInt 1) (PyStr ''u'') (PyInt 1) (PyStr ''u'')) world0"
  let ?req = "post_request api0 (BULK_DELETE_URL (workspace_slug api0))
                (delete_params [''1'', ''u''])"
  let ?w2 = "emit (Http ?req) (?w1\<lparr>calls := Suc (calls ?w1)\<rparr>)"
  have c1: "call_segment_post (srv_const (resp_error 404)) api0
              (BULK_DELETE_URL (workspace_slug api0)) (delete_params [''1'', ''u'']) ?w1 =
            (Inl (HTTPError (resp_error 404)), ?w2)"
    unfolding call_segment_post_def
    by (rule retry_segment_api_giveup) (simp_all add: srv_const_def resp_error_def)
  have c2: "call_segment_post (srv_const resp_html) api0
              (BULK_DELETE_URL (workspace_slug api0)) (delete_params [''1'', ''u'']) ?w1 =
            (Inr resp_html, ?w2)"
    unfolding call_segment_post_def
    by (rule retry_segment_api_ok) (simp_all add: srv_const_def resp_html_def)
  have c3: "call_segment_post (srv_const resp_empty) api0
              (BULK_DELETE_URL (workspace_slug api0)) (delete_params [''1'', ''u'']) ?w1 =
            (Inr resp_empty, ?w2)"
    unfolding call_segment_post_def
    by (rule retry_segment_api_ok) (simp_all add: srv_const_def resp_empty_def)
  have m: "length [''1'', ''u''] < MAXIMUM_USERS_IN_DELETE_REQUEST"
    by (simp add: MAXIMUM_USERS_IN_DELETE_REQUEST_def)
  have e: "(0::int) = min (0 + 1 - 1) (int (length [learner_of 1 ''u'']) - 1)"
    and l: "(0::int) < int (length [learner_of 1 ''u''])"
    by simp_all
  show ?thesis
    using failed_submission_is_wrapped [OF l e one_learner_args one_learner_vals m c1]
      failed_submission_is_wrapped [OF l e one_learner_args one_learner_vals m c2]
      failed_submission_is_wrapped [OF l e one_learner_args one_learner_vals m c3]
    by (simp add: resp_html_def resp_empty_def)
qed

lemma retry_segment_api_second:
  assumes "srv (calls w) req = Resp r0"
    and "status_code r0 = 429 \<or> 500 \<le> status_code r0" and "status_code r0 < 600"
    and "srv (Suc (calls w)) req = Resp r1"
    and "\<not> (400 \<le> status_code r1 \<and> status_code r1 < 600)"
  shows "retry_segment_api (send_request srv req) w =
         (Inr r1,
          w\<lparr>calls := Suc (Suc (calls w)),
            trace := trace w @
              [Http req, LogErrorBackoff 1 1, LogErrorTraceback (HTTPError r0),
               LogErrorHTTP (status_code r0) (resp_text r0), Sleep 1, Http req]\<rparr>)"
proof -
  define w1 where "w1 = emit (Sleep (2 ^ 0)) (backoff_handler (2 ^ 0) (Suc 0) (HTTPError r0)
                          (emit (Http req) (w\<lparr>calls := Suc (calls w)\<rparr>)))"
  have c1: "calls w1 = Suc (calls w)" by (simp add: w1_def)
  let ?inner = "on_exception (Constant 30) is_Timeout MAX_TRIES (\<lambda>e. False) (send_request srv req) 0"
  have "on_exception Expo is_HTTPError MAX_TRIES http_status_giveup ?inner 0 w =
        on_exception Expo is_HTTPError MAX_TRIES http_status_giveup ?inner (Suc 0) w1"
    unfolding w1_def using assms(1-3) by (intro http_layer_retry) (simp_all add: MAX_TRIES_def)
  moreover have "?inner w1 = (Inr r1, emit (Http req) (w1\<lparr>calls := Suc (calls w1)\<rparr>))"
    using assms(4,5) c1 by (simp add: timeout_layer_Resp raise_for_status_def)
  then have "on_exception Expo is_HTTPError MAX_TRIES http_status_giveup ?inner (Suc 0) w1 =
        (Inr r1, emit (Http req) (w1\<lparr>calls := Suc (calls w1)\<rparr>))"
    by (rule on_exception_Inr)
  ultimately have "retry_segment_api (send_request srv req) w =
        (Inr r1, emit (Http req) (w1\<lparr>calls := Suc (calls w1)\<rparr>))"
    by (simp add: retry_segment_api_send)
  then show ?thesis
    by (simp add: w1_def emit_def backoff_handler_def)
qed

lemma retried_submission:
  assumes "end_idx = min (curr_idx + chunk_size - 1) (int (length learners) - 1)"
    and "attempt_args learners curr_idx end_idx = Inr (a, b, c, d)"
    and "flatten_vals learners [curr_idx..end_idx] [] = Inr learner_vals"
    and "length learner_vals < MAXIMUM_USERS_IN_DELETE_REQUEST"
    and "req = post_request api (BULK_DELETE_URL (workspace_slug api)) (delete_params learner_vals)"
    and "srv (calls w) req = Resp r0" and "status_code r0 = 500"
    and "srv (Suc (calls w)) req = Resp r1" and "status_code r1 = 200"
    and "json_body r1 = Some resp_json"
    and "json_getitem resp_json ''regulate_id'' = Inr rid"
  shows "window_step srv api learners chunk_size curr_idx w =
         (Continue,
          w\<lparr>calls := Suc (Suc (calls w)),
            trace := trace w @
              [LogInfoAttempt curr_idx end_idx a b c d,
               Http req, LogErrorBackoff 1 1, LogErrorTraceback (HTTPError r0),
               LogErrorHTTP 500 (resp_text r0), Sleep 1, Http req,
               LogInfoQueued rid]\<rparr>)"
proof -
  let ?w1 = "emit (LogInfoAttempt curr_idx end_idx a b c d) w"
  have "call_segment_post srv api (BULK_DELETE_URL (workspace_slug api))
          (delete_params learner_vals) ?w1 =
        (Inr r1,
         ?w1\<lparr>calls := Suc (Suc (calls ?w1)),
            trace := trace ?w1 @
              [Http req, LogErrorBackoff 1 1, LogErrorTraceback (HTTPError r0),
               LogErrorHTTP (status_code r0) (resp_text r0), Sleep 1, Http req]\<rparr>)"
    unfolding call_segment_post_def assms(5) [symmetric]
    using assms(6-9) by (intro retry_segment_api_second) simp_all
  then have "submit srv api curr_idx end_idx learner_vals ?w1 =
        (Continue, emit (LogInfoQueued rid)
           (?w1\<lparr>calls := Suc (Suc (calls ?w1)),
              trace := trace ?w1 @
                [Http req, LogErrorBackoff 1 1, LogErrorTraceback (HTTPError r0),
                 LogErrorHTTP (status_code r0) (resp_text r0), Sleep 1, Http req]\<rparr>))"
    using assms(10,11) by (rule submit_queued)
  moreover have "window_step srv api learners chunk_size curr_idx w =
      submit srv api curr_idx end_idx learner_vals ?w1"
    using assms(1-4) by (rule window_step_submit)
  ultimately show ?thesis
    using assms(7) by (simp add: emit_def)
qed

text \<open>
  C7, as stated, fails: the server answers 500 and then 200 with
  \<open>{"regulate_id": "r1"}\<close>; the submission succeeds, and \<open>delete_learners\<close> returns
  \<open>None\<close>, not the identifier.
\<close>

theorem retried_submission_counterexample:
  "map_option fst
     (delete_learners (srv_seq [resp_error 500] resp_queued) api0 [learner_of 1 ''u''] 1 0 world0) =
   Some (Inr NoneVal) \<and>
   map_option fst
     (delete_learners (srv_seq [resp_error 500] resp_queued) api0 [learner_of 1 ''u''] 1 0 world0) \<noteq>
   Some (Inr (JsonVal (JStr ''r1'')))"
proof -
  have "\<exists>w'. window_step (srv_seq [resp_error 500] resp_queued) api0 [learner_of 1 ''u''] 1 0 world0 =
          (Continue, w')"
    using retried_submission [where srv = "srv_seq [resp_error 500] resp_queued" and api = api0
        and w = world0 and learners = "[learner_of 1 ''u'']" and chunk_size = 1 and curr_idx = 0
        and ?r0.0 = "resp_error 500" and ?r1.0 = resp_queued, OF _ one_learner_args one_learner_vals]
    by (simp add: srv_seq_def world0_def resp_error_def resp_queued_def
        MAXIMUM_USERS_IN_DELETE_REQUEST_def)
  then obtain w' where "window_step (srv_seq [resp_error 500] resp_queued) api0
      [learner_of 1 ''u''] 1 0 world0 = (Continue, w')" ..
  then have "delete_loop (srv_seq [resp_error 500] resp_queued) api0 [learner_of 1 ''u''] 1 0 world0 =
      delete_loop (srv_seq [resp_error 500] resp_queued) api0 [learner_of 1 ''u''] 1 (0 + 1) w'"
    by (intro delete_loop_Continue) simp_all
  then show ?thesis
    by (simp add: delete_learners_def delete_loop_done)
qed

text \<open>
  C7, amended. In a window that reaches its submission, a 500 response followed by a
  200 response whose document has \<open>regulate_id\<close> makes the submission succeed after
  two requests and one generated wait of 1: the identifier of the second response is
  logged, and the loop goes on with the next window. When the window is the last one,
  \<open>delete_learners\<close> returns \<open>None\<close>; the identifier is in the log, not in the
  returned value.
\<close>

theorem retried_submission_logs_id:
  assumes "curr_idx < int (length learners)"
    and "end_idx = min (curr_idx + chunk_size - 1) (int (length learners) - 1)"
    and "attempt_args learners curr_idx end_idx = Inr (a, b, c, d)"
    and "flatten_vals learners [curr_idx..end_idx] [] = Inr learner_vals"
    and "length learner_vals < MAXIMUM_USERS_IN_DELETE_REQUEST"
    and "req = post_request api (BULK_DELETE_URL (workspace_slug api)) (delete_params learner_vals)"
    and "srv (calls w) req = Resp r0" and "status_code r0 = 500"
    and "srv (Suc (calls w)) req = Resp r1" and "status_code r1 = 200"
    and "json_body r1 = Some resp_json"
    and "json_getitem resp_json ''regulate_id'' = Inr rid"
    and "w' = w\<lparr>calls := Suc (Suc (calls w)),
            trace := trace w @
              [LogInfoAttempt curr_idx end_idx a b c d,
               Http req, LogErrorBackoff 1 1, LogErrorTraceback (HTTPError r0),
               LogErrorHTTP 500 (resp_text r0), Sleep 1, Http req,
               LogInfoQueued rid]\<rparr>"
  shows "delete_loop srv api learners chunk_size curr_idx w =
           delete_loop srv api learners chunk_size (curr_idx + chunk_size) w'
         \<and> (int (length learners) \<le> curr_idx + chunk_size \<longrightarrow>
              delete_loop srv api learners chunk_size curr_idx w = Some (Inr NoneVal, w'))"
proof -
  have "window_step srv api learners chunk_size curr_idx w = (Continue, w')"
    unfolding assms(13) using assms(2-12) by (rule retried_submission)
  with assms(1) have "delete_loop srv api learners chunk_size curr_idx w =
      delete_loop srv api learners chunk_size (curr_idx + chunk_size) w'"
    by (rule delete_loop_Continue)
  then show ?thesis by (simp add: delete_loop_done)
qed

theorem retried_submission_logs_id_witness:
  "delete_loop (srv_seq [resp_error 500] resp_queued) api0 [learner_of 1 ''u''] 1 0 world0 =
   Some (Inr NoneVal,
     \<lparr>calls = 2,
      trace =
        [LogInfoAttempt 0 0 (PyInt 1) (PyStr ''u'') (PyInt 1) (PyStr ''u''),
         Http (post_request api0 (BULK_DELETE_URL ''ws'') (delete_params [''1'', ''u''])),
         LogErrorBackoff 1 1, LogErrorTraceback (HTTPError (resp_error 500)),
         LogErrorHTTP 500 ''failure'', Sleep 1,
         Http (post_request api0 (BULK_DELETE_URL ''ws'') (delete_params [''1'', ''u''])),
         LogInfoQueued (JStr ''r1'')]\<rparr>)"
  using retried_submission_logs_id [where srv = "srv_seq [resp_error 500] resp_queued"
      and api = api0 and w = world0 and learners = "[learner_of 1 ''u'']" and chunk_size = 1
      and curr_idx = 0 and ?r0.0 = "resp_error 500" and ?r1.0 = resp_queued
      and req = "post_request api0 (BULK_DELETE_URL ''ws'') (delete_params [''1'', ''u''])"
      and resp_json = "JObj [(''regulate_id'', JStr ''r1'')]" and rid = "JStr ''r1''"
      and w' = "\<lparr>calls = 2,
        trace =
          [LogInfoAttempt 0 0 (PyInt 1) (PyStr ''u'') (PyInt 1) (PyStr ''u''),
           Http (post_request api0 (BULK_DELETE_URL ''ws'') (delete_params [''1'', ''u''])),
           LogErrorBackoff 1 1, LogErrorTraceback (HTTPError (resp_error 500)),
           LogErrorHTTP 500 ''failure'', Sleep 1,
           Http (post_request api0 (BULK_DELETE_URL ''ws'') (delete_params [''1'', ''u''])),
           LogInfoQueued (JStr ''r1'')]\<rparr>",
      OF _ _ one_learner_args one_learner_vals, THEN conjunct2]
  by (simp add: srv_seq_def world0_def resp_error_def resp_queued_def api0_def
      MAXIMUM_USERS_IN_DELETE_REQUEST_def)

subsection \<open>Termination of the loop\<close>

lemma window_step_index_error:
  assumes "curr_idx < - int (length learners)"
  shows "window_step srv api learners chunk_size curr_idx w = (Raise IndexError, w)"
proof -
  from assms have "list_getitem learners curr_idx = Inl IndexError"
    by (simp add: list_getitem_def)
  then show ?thesis
    by (simp add: window_step_def attempt_args_def Let_def)
qed

lemma delete_loop_step_cases:
  assumes "curr_idx < int (length learners)"
  obtains (Continue) w' where
      "window_step srv api learners chunk_size curr_idx w = (Continue, w')"
      "delete_loop srv api learners chunk_size curr_idx w =
       delete_loop srv api learners chunk_size (curr_idx + chunk_size) w'"
  | (Stop) r where "delete_loop srv api learners chunk_size curr_idx w = Some r"
proof (cases "window_step srv api learners chunk_size curr_idx w")
  case (Pair st w')
  show ?thesis
  proof (cases st)
    case Continue
    with Pair assms show ?thesis
      by (intro that(1) [of w']) (simp_all add: delete_loop_Continue)
  next
    case Return
    with Pair assms show ?thesis
      by (intro that(2)) (simp add: delete_loop_Return)
  next
    case (Raise e)
    with Pair assms show ?thesis
      by (intro that(2)) (simp add: delete_loop_Raise)
  qed
qed

lemma delete_loop_terminates_pos:
  assumes "1 \<le> chunk_size"
  shows "\<exists>r. delete_loop srv api learners chunk_size curr_idx w = Some r"
proof (induction "nat (int (length learners) - curr_idx)" arbitrary: curr_idx w rule: less_induct)
  case less
  show ?case
  proof (cases "curr_idx < int (length learners)")
    case False
    then show ?thesis by (simp add: delete_loop_done)
  next
    case True
    then show ?thesis
    proof (cases rule: delete_loop_step_cases [of curr_idx learners srv api chunk_size w])
      case (Continue w')
      have "nat (int (length learners) - (curr_idx + chunk_size)) <
            nat (int (length learners) - curr_idx)"
        using True assms by simp
      from less [OF this, of w'] Continue(2) show ?thesis by simp
    next
      case (Stop r)
      then show ?thesis by blast
    qed
  qed
qed

lemma delete_loop_terminates_neg:
  assumes "chunk_size < 0"
  shows "\<exists>r. delete_loop srv api learners chunk_size curr_idx w = Some r"
proof (induction "nat (curr_idx + int (length learners) + 1)" arbitrary: curr_idx w
    rule: less_induct)
  case less
  show ?case
  proof (cases "curr_idx < int (length learners)")
    case False
    then show ?thesis by (simp add: delete_loop_done)
  next
    case True
    then show ?thesis
    proof (cases rule: delete_loop_step_cases [of curr_idx learners srv api chunk_size w])
      case (Continue w')
      have "\<not> curr_idx < - int (length learners)"
        using Continue(1) by (auto simp: window_step_index_error)
      then have "nat (curr_idx + chunk_size + int (length learners) + 1) <
            nat (curr_idx + int (length learners) + 1)"
        using assms by simp
      from less [OF this, of w'] Continue(2) show ?thesis by simp
    next
      case (Stop r)
      then show ?thesis by blast
    qed
  qed
qed

lemma delete_loop_diverges:
  assumes "curr_idx < int (length learners)"
    and "attempt_args learners curr_idx (curr_idx - 1) = Inr args"
    and "\<forall>n req. \<exists>r resp_json rid. srv n req = Resp r \<and>
           \<not> (400 \<le> status_code r \<and> status_code r < 600) \<and>
           json_body r = Some resp_json \<and> json_getitem resp_json ''regulate_id'' = Inr rid"
  shows "delete_loop srv api learners 0 curr_idx w = None"
proof (rule ccontr)
  assume "delete_loop srv api learners 0 curr_idx w \<noteq> None"
  then obtain y where y: "delete_loop srv api learners 0 curr_idx w = Some y" by auto
  have "srv = srv \<and> api = api \<and> learners = learners \<and> (0::int) = 0 \<and> curr_idx = curr_idx
        \<longrightarrow> False"
  proof (rule delete_loop.raw_induct
      [where P = "\<lambda>srv' api' learners' chunk' curr' w' y'.
         srv' = srv \<and> api' = api \<and> learners' = learners \<and> chunk' = 0 \<and> curr' = curr_idx
         \<longrightarrow> False", OF _ y])
    fix f srv' api' learners' chunk' curr' w' y'
    assume IH: "\<And>srv'' api'' learners'' chunk'' curr'' w'' y''.
        f srv'' api'' learners'' chunk'' curr'' w'' = Some y'' \<Longrightarrow>
        srv'' = srv \<and> api'' = api \<and> learners'' = learners \<and> chunk'' = 0 \<and> curr'' = curr_idx
        \<longrightarrow> False"
      and step: "(if curr' < int (length learners')
          then case window_step srv' api' learners' chunk' curr' w' of
               (Continue, w'') \<Rightarrow> f srv' api' learners' chunk' (curr' + chunk') w''
             | (Return, w'') \<Rightarrow> Some (Inr NoneVal, w'')
             | (Raise e, w'') \<Rightarrow> Some (Inl e, w'')
          else Some (Inr NoneVal, w')) = Some y'"
    show "srv' = srv \<and> api' = api \<and> learners' = learners \<and> chunk' = 0 \<and> curr' = curr_idx
          \<longrightarrow> False"
    proof
      assume eq: "srv' = srv \<and> api' = api \<and> learners' = learners \<and> chunk' = 0 \<and> curr' = curr_idx"
      obtain a b c d where args: "args = (a, b, c, d)" by (cases args) auto
      let ?w1 = "emit (LogInfoAttempt curr_idx (curr_idx - 1) a b c d) w'"
      from assms(3) obtain r resp_json rid where r:
        "srv (calls ?w1) (post_request api (BULK_DELETE_URL (workspace_slug api))
             (delete_params [])) = Resp r"
        "\<not> (400 \<le> status_code r \<and> status_code r < 600)"
        "json_body r = Some resp_json" "json_getitem resp_json ''regulate_id'' = Inr rid"
        by blast
      have e: "curr_idx - 1 = min (curr_idx + 0 - 1) (int (length learners) - 1)"
        using assms(1) by simp
      have "window_step srv api learners 0 curr_idx w' =
            submit srv api curr_idx (curr_idx - 1) [] ?w1"
        using e assms(2) [unfolded args]
        by (rule window_step_submit) (simp_all add: MAXIMUM_USERS_IN_DELETE_REQUEST_def)
      also have "\<dots> = (Continue,
          ?w1\<lparr>calls := Suc (calls ?w1),
            trace := trace ?w1 @
              [Http (post_request api (BULK_DELETE_URL (workspace_slug api)) (delete_params [])),
               LogInfoQueued rid]\<rparr>)"
        using r by (rule submit_ok)
      finally have "f srv api learners 0 curr_idx
          (?w1\<lparr>calls := Suc (calls ?w1),
            trace := trace ?w1 @
              [Http (post_request api (BULK_DELETE_URL (workspace_slug api)) (delete_params [])),
               LogInfoQueued rid]\<rparr>) = Some y'"
        using step eq assms(1) by simp
      from IH [OF this] show False by simp
    qed
  qed
  then show False by simp
qed


text \<open>
  C10, as stated, fails: with \<open>chunk_size = -1\<close> and \<open>beginning_idx = 0\<close> on a list
  of one learner, neither \<open>chunk_size >= 1\<close> nor \<open>beginning_idx >= len(learners)\<close>
  holds, and the loop terminates: the end index is \<open>-2\<close>, and reading
  \<open>learners[-2]\<close> for the first log line raises \<open>IndexError\<close>.
\<close>

theorem loop_termination_counterexample:
  "delete_learners (srv_const resp_queued) api0 [learner_of 1 ''u''] (- 1) 0 world0 =
     Some (Inl IndexError, world0)
   \<and> \<not> ((1::int) \<le> - 1 \<or> int (length [learner_of 1 ''u'']) \<le> 0)"
proof -
  have "attempt_args [learner_of 1 ''u''] 0 (- 2) = Inl IndexError"
    by (simp add: attempt_args_def list_getitem_def learner_of_def)
  then have "window_step (srv_const resp_queued) api0 [learner_of 1 ''u''] (- 1) 0 world0 =
      (Raise IndexError, world0)"
    by (intro window_step_args_fail [where end_idx = "- 2"]) simp_all
  then show ?thesis
    by (simp add: delete_learners_def delete_loop_Raise)
qed

text \<open>
  C10, amended. An iteration that goes on advances \<open>curr_idx\<close> by exactly
  \<open>chunk_size\<close>. The loop terminates, by returning or by raising, whenever
  \<open>chunk_size\<close> is not 0 or \<open>beginning_idx >= len(learners)\<close>, for every server and
  every list: a positive chunk size reaches the end of the list, a negative one
  leaves the list at its front, where the first log line raises \<open>IndexError\<close>.
  With \<open>chunk_size = 0\<close> and \<open>beginning_idx < len(learners)\<close> the loop makes no
  progress, and it never terminates when every iteration succeeds: the arguments of
  the first log line can be read and every request is answered, without an HTTP
  error, by a document that has \<open>regulate_id\<close>.
\<close>

theorem loop_termination:
  "(curr_idx < int (length learners) \<and>
    window_step srv api learners chunk_size curr_idx w = (Continue, w') \<longrightarrow>
      delete_loop srv api learners chunk_size curr_idx w =
      delete_loop srv api learners chunk_size (curr_idx + chunk_size) w')
   \<and> (chunk_size \<noteq> 0 \<or> int (length learners) \<le> beginning_idx \<longrightarrow>
      (\<exists>r. delete_learners srv api learners chunk_size beginning_idx w = Some r))
   \<and> (chunk_size = 0 \<and> beginning_idx < int (length learners) \<and>
      (\<exists>args. attempt_args learners beginning_idx (beginning_idx - 1) = Inr args) \<and>
      (\<forall>n req. \<exists>r resp_json rid. srv n req = Resp r \<and>
           \<not> (400 \<le> status_code r \<and> status_code r < 600) \<and>
           json_body r = Some resp_json \<and> json_getitem resp_json ''regulate_id'' = Inr rid) \<longrightarrow>
      delete_learners srv api learners chunk_size beginning_idx w = None)"
proof (intro conjI impI)
  assume "curr_idx < int (length learners) \<and>
    window_step srv api learners chunk_size curr_idx w = (Continue, w')"
  then show "delete_loop srv api learners chunk_size curr_idx w =
      delete_loop srv api learners chunk_size (curr_idx + chunk_size) w'"
    by (simp add: delete_loop_Continue)
next
  assume "chunk_size \<noteq> 0 \<or> int (length learners) \<le> beginning_idx"
  then consider "1 \<le> chunk_size" | "chunk_size < 0" | "int (length learners) \<le> beginning_idx"
    by linarith
  then show "\<exists>r. delete_learners srv api learners chunk_size beginning_idx w = Some r"
    unfolding delete_learners_def
  proof cases
    case 1
    then show "\<exists>r. delete_loop srv api learners chunk_size beginning_idx w = Some r"
      by (rule delete_loop_terminates_pos)
  next
    case 2
    then show "\<exists>r. delete_loop srv api learners chunk_size beginning_idx w = Some r"
      by (rule delete_loop_terminates_neg)
  next
    case 3
    then show "\<exists>r. delete_loop srv api learners chunk_size beginning_idx w = Some r"
      by (simp add: delete_loop_done)
  qed
next
  assume a: "chunk_size = 0 \<and> beginning_idx < int (length learners) \<and>
      (\<exists>args. attempt_args learners beginning_idx (beginning_idx - 1) = Inr args) \<and>
      (\<forall>n req. \<exists>r resp_json rid. srv n req = Resp r \<and>
           \<not> (400 \<le> status_code r \<and> status_code r < 600) \<and>
           json_body r = Some resp_json \<and> json_getitem resp_json ''regulate_id'' = Inr rid)"
  then obtain args where "attempt_args learners beginning_idx (beginning_idx - 1) = Inr args"
    by blast
  with a show "delete_learners srv api learners chunk_size beginning_idx w = None"
    unfolding delete_learners_def by (simp add: delete_loop_diverges)
qed

theorem loop_termination_witness:
  "delete_loop (srv_const resp_queued) api0 [learner_of 1 ''u''] 1 0 world0 =
     delete_loop (srv_const resp_queued) api0 [learner_of 1 ''u''] 1 1
       \<lparr>calls = 1,
        trace =
          [LogInfoAttempt 0 0 (PyInt 1) (PyStr ''u'') (PyInt 1) (PyStr ''u''),
           Http (post_request api0 (BULK_DELETE_URL ''ws'') (delete_params [''1'', ''u''])),
           LogInfoQueued (JStr ''r1'')]\<rparr>
   \<and> (\<exists>r. delete_learners (srv_const resp_queued) api0
          [learner_of 1 ''u'', learner_of 2 ''v''] 1 0 world0 = Some r)
   \<and> (\<exists>r. delete_learners (srv_const resp_queued) api0
          [learner_of 1 ''u'', learner_of 2 ''v''] (- 1) 0 world0 = Some r)
   \<and> delete_learners (srv_const resp_queued) api0 [learner_of 1 ''u''] 0 0 world0 = None"
proof -
  have "attempt_args [learner_of 1 ''u''] 0 (0 - 1) =
        Inr (PyInt 1, PyStr ''u'', PyInt 1, PyStr ''u'')"
    by (simp add: attempt_args_def list_getitem_def learner_of_def)
  then show ?thesis
    using
      loop_termination [where curr_idx = 0 and learners = "[learner_of 1 ''u'']"
        and srv = "srv_const resp_queued" and api = api0 and chunk_size = 1 and w = world0
        and beginning_idx = 0, THEN conjunct1, rule_format, OF conjI [OF _ one_learner_step]]
      loop_termination [of 0 "[learner_of 1 ''u'', learner_of 2 ''v'']" "srv_const resp_queued"
        api0 1 world0 _ 0]
      loop_termination [of 0 "[learner_of 1 ''u'', learner_of 2 ''v'']" "srv_const resp_queued"
        api0 "- 1" world0 _ 0]
      loop_termination [of 0 "[learner_of 1 ''u'']" "srv_const resp_queued" api0 0 world0 _ 0]
    by (simp add: srv_const_def resp_queued_def)
qed

subsection \<open>The windows of a run without failures\<close>

lemma requests_of_append: "requests_of (es @ fs) = requests_of es @ requests_of fs"
  by (induction es rule: requests_of.induct) simp_all

lemma spec_windows_Nil [simp]: "spec_windows n [] = []"
  by (simp add: spec_windows.simps)

lemma spec_windows_step:
  "0 < n \<Longrightarrow> xs \<noteq> [] \<Longrightarrow> spec_windows n xs = take n xs # spec_windows n (drop n xs)"
  by (subst spec_windows.simps) simp

lemma length_spec_windows:
  "0 < n \<Longrightarrow> length (spec_windows n xs) = (length xs + n - 1) div n"
proof (induction n xs rule: spec_windows.induct)
  case (1 n xs)
  show ?case
  proof (cases "xs = []")
    case True
    with "1.prems" show ?thesis by simp
  next
    case False
    with "1.prems" "1.IH" have
      l: "length (spec_windows n xs) = Suc ((length xs - n + n - 1) div n)"
      by (simp add: spec_windows_step)
    show ?thesis
    proof (cases "n \<le> length xs")
      case True
      have "(length xs + n - 1) div n = ((length xs - 1) + n) div n"
        using True "1.prems" by (intro arg_cong [where f = "\<lambda>a. a div n"]) simp
      also have "\<dots> = (length xs - 1) div n + 1"
        using "1.prems" by (intro div_add_self2) simp
      finally show ?thesis using l True by simp
    next
      case False
      obtain m where m: "length xs = Suc m" using \<open>xs \<noteq> []\<close> by (cases xs) auto
      with False "1.prems" have "(length xs + n - 1) div n = 1"
        by (intro div_nat_eqI) simp_all
      moreover from False "1.prems" have "(length xs - n + n - 1) div n = 0" by simp
      ultimately show ?thesis using l by simp
    qed
  qed
qed

lemma concat_spec_windows: "0 < n \<Longrightarrow> concat (spec_windows n xs) = xs"
proof (induction n xs rule: spec_windows.induct)
  case (1 n xs)
  then show ?case
    by (cases "xs = []") (simp_all add: spec_windows_step)
qed

lemma window_step_ok:
  assumes "0 \<le> s" and "s < int (length learners)" and "1 \<le> c"
    and "e = min (s + c - 1) (int (length learners) - 1)"
    and "\<forall>l \<in> set (take (nat c) (drop (nat s) learners)).
           l ''id'' \<noteq> None \<and> l ''original_username'' \<noteq> None"
    and "length (concat (map spec_flatten (take (nat c) (drop (nat s) learners)))) <
           MAXIMUM_USERS_IN_DELETE_REQUEST"
    and "req = post_request api (BULK_DELETE_URL (workspace_slug api))
           (delete_params (concat (map spec_flatten (take (nat c) (drop (nat s) learners)))))"
    and "srv (calls w) req = Resp r"
    and "\<not> (400 \<le> status_code r \<and> status_code r < 600)"
    and "json_body r = Some resp_json"
    and "json_getitem resp_json ''regulate_id'' = Inr rid"
  shows "window_step srv api learners c s w =
         (Continue,
          w\<lparr>calls := Suc (calls w),
            trace := trace w @
              [LogInfoAttempt s e
                 (the ((learners ! nat s) ''id'')) (the ((learners ! nat s) ''original_username''))
                 (the ((learners ! nat e) ''id'')) (the ((learners ! nat e) ''original_username'')),
               Http req, LogInfoQueued rid]\<rparr>)"
proof -
  let ?w1 = "emit (LogInfoAttempt s e
                 (the ((learners ! nat s) ''id'')) (the ((learners ! nat s) ''original_username''))
                 (the ((learners ! nat e) ''id'')) (the ((learners ! nat e) ''original_username''))) w"
  note p = window_prepared [OF assms(1-5)]
  have "window_step srv api learners c s w =
        submit srv api s e (concat (map spec_flatten (take (nat c) (drop (nat s) learners)))) ?w1"
    using assms(4) p assms(6) by (rule window_step_submit)
  also have "\<dots> = (Continue,
          ?w1\<lparr>calls := Suc (calls ?w1),
            trace := trace ?w1 @
              [Http (post_request api (BULK_DELETE_URL (workspace_slug api))
                 (delete_params (concat (map spec_flatten (take (nat c) (drop (nat s) learners)))))),
               LogInfoQueued rid]\<rparr>)"
    using assms(8-11) unfolding assms(7) by (intro submit_ok) simp_all
  finally show ?thesis
    by (simp add: emit_def assms(7))
qed

lemma delete_loop_windows:
  assumes c: "1 \<le> c"
    and keys: "\<forall>l \<in> set learners. l ''id'' \<noteq> None \<and> l ''original_username'' \<noteq> None"
    and srv: "\<forall>n req. \<exists>r resp_json rid. srv n req = Resp r \<and>
           \<not> (400 \<le> status_code r \<and> status_code r < 600) \<and>
           json_body r = Some resp_json \<and> json_getitem resp_json ''regulate_id'' = Inr rid"
  shows "\<forall>win \<in> set (spec_windows (nat c) (drop k learners)).
           length (concat (map spec_flatten win)) < MAXIMUM_USERS_IN_DELETE_REQUEST \<Longrightarrow>
         \<exists>w'. delete_loop srv api learners c (int k) w = Some (Inr NoneVal, w') \<and>
           requests_of (trace w') =
             requests_of (trace w) @
             map (\<lambda>win. post_request api (BULK_DELETE_URL (workspace_slug api))
                          (delete_params (concat (map spec_flatten win))))
               (spec_windows (nat c) (drop k learners)) \<and>
           calls w' = calls w + length (spec_windows (nat c) (drop k learners))"
proof (induction "length learners - k" arbitrary: k w rule: less_induct)
  case less
  show ?case
  proof (cases "k < length learners")
    case False
    then show ?thesis by (simp add: delete_loop_done)
  next
    case True
    let ?win = "take (nat c) (drop k learners)"
    let ?req = "post_request api (BULK_DELETE_URL (workspace_slug api))
                  (delete_params (concat (map spec_flatten ?win)))"
    have sw: "spec_windows (nat c) (drop k learners) =
              ?win # spec_windows (nat c) (drop (k + nat c) learners)"
      using True c by (simp add: spec_windows_step add.commute)
    from srv obtain r resp_json rid where r: "srv (calls w) ?req = Resp r"
      "\<not> (400 \<le> status_code r \<and> status_code r < 600)"
      "json_body r = Some resp_json" "json_getitem resp_json ''regulate_id'' = Inr rid"
      by blast
    define e where "e = min (int k + c - 1) (int (length learners) - 1)"
    define w1 where "w1 = w\<lparr>calls := Suc (calls w),
            trace := trace w @
              [LogInfoAttempt (int k) e
                 (the ((learners ! nat (int k)) ''id''))
                 (the ((learners ! nat (int k)) ''original_username''))
                 (the ((learners ! nat e) ''id'')) (the ((learners ! nat e) ''original_username'')),
               Http ?req, LogInfoQueued rid]\<rparr>"
    have wk: "set (take (nat c) (drop (nat (int k)) learners)) \<subseteq> set learners"
      by (meson set_drop_subset set_take_subset subset_trans)
    have "window_step srv api learners c (int k) w = (Continue, w1)"
      unfolding w1_def
      using True c e_def keys wk less.prems r
      by (intro window_step_ok) (auto simp: sw)
    then have step: "delete_loop srv api learners c (int k) w =
        delete_loop srv api learners c (int (k + nat c)) w1"
      using True c by (subst delete_loop_Continue [where w' = w1]) simp_all
    have "length learners - (k + nat c) < length learners - k"
      using True c by simp
    moreover have "\<forall>win \<in> set (spec_windows (nat c) (drop (k + nat c) learners)).
           length (concat (map spec_flatten win)) < MAXIMUM_USERS_IN_DELETE_REQUEST"
      using less.prems by (simp add: sw)
    ultimately obtain w' where w':
      "delete_loop srv api learners c (int (k + nat c)) w1 = Some (Inr NoneVal, w')"
      "requests_of (trace w') =
         requests_of (trace w1) @
         map (\<lambda>win. post_request api (BULK_DELETE_URL (workspace_slug api))
                      (delete_params (concat (map spec_flatten win))))
           (spec_windows (nat c) (drop (k + nat c) learners))"
      "calls w' = calls w1 + length (spec_windows (nat c) (drop (k + nat c) learners))"
      using less.hyps [of "k + nat c" w1] by blast
    have "requests_of (trace w1) = requests_of (trace w) @ [?req]"
      by (simp add: w1_def requests_of_append)
    with w' step show ?thesis
      by (simp add: sw w1_def)
  qed
qed


text \<open>
  C1. With a positive chunk size and start index 0, when every learner has the
  required fields, no window of the specification's partition flattens to 5000 values
  or more, and every request is answered, without an HTTP error, by a document that
  has \<open>regulate_id\<close>, \<open>delete_learners\<close> returns, and the requests it has sent are
  exactly one per window of the partition into consecutive windows of \<open>chunk_size\<close>
  learners (the last one possibly shorter), in the order of the list, each carrying
  the flattened values of its window: \<open>ceil(N / chunk_size)\<close> requests.
\<close>

theorem delete_learners_windows:
  assumes "1 \<le> chunk_size"
    and "\<forall>l \<in> set learners. l ''id'' \<noteq> None \<and> l ''original_username'' \<noteq> None"
    and "\<forall>win \<in> set (spec_windows (nat chunk_size) learners).
           length (concat (map spec_flatten win)) < MAXIMUM_USERS_IN_DELETE_REQUEST"
    and "\<forall>n req. \<exists>r resp_json rid. srv n req = Resp r \<and>
           \<not> (400 \<le> status_code r \<and> status_code r < 600) \<and>
           json_body r = Some resp_json \<and> json_getitem resp_json ''regulate_id'' = Inr rid"
  shows "\<exists>w'. delete_learners srv api learners chunk_size 0 w = Some (Inr NoneVal, w') \<and>
           requests_of (trace w') =
             requests_of (trace w) @
             map (\<lambda>win. post_request api (BULK_DELETE_URL (workspace_slug api))
                          (delete_params (concat (map spec_flatten win))))
               (spec_windows (nat chunk_size) learners) \<and>
           calls w' = calls w + (length learners + nat chunk_size - 1) div nat chunk_size \<and>
           length (spec_windows (nat chunk_size) learners) =
             (length learners + nat chunk_size - 1) div nat chunk_size \<and>
           concat (spec_windows (nat chunk_size) learners) = learners"
proof -
  have n: "0 < nat chunk_size" using assms(1) by simp
  from delete_loop_windows [OF assms(1,2,4), of 0 api w] assms(3)
  obtain w' where "delete_loop srv api learners chunk_size 0 w = Some (Inr NoneVal, w')"
    "requests_of (trace w') =
       requests_of (trace w) @
       map (\<lambda>win. post_request api (BULK_DELETE_URL (workspace_slug api))
                    (delete_params (concat (map spec_flatten win))))
         (spec_windows (nat chunk_size) learners)"
    "calls w' = calls w + length (spec_windows (nat chunk_size) learners)"
    by auto
  then show ?thesis
    using length_spec_windows [OF n, of learners] concat_spec_windows [OF n, of learners]
    by (simp add: delete_learners_def)
qed

lemma spec_windows_learners12:
  "spec_windows 5 learners12 =
     [map (\<lambda>i. learner_of i ''u'') [1, 2, 3, 4, 5],
      map (\<lambda>i. learner_of i ''u'') [6, 7, 8, 9, 10],
      map (\<lambda>i. learner_of i ''u'') [11, 12]]"
  by (simp add: learners12_def spec_windows.simps)

lemma spec_flatten_learner_of: "spec_flatten (learner_of i ''u'') = [text_type (PyInt i), ''u'']"
  by (simp add: spec_flatten_def learner_of_def)

theorem delete_learners_windows_witness:
  "map length (spec_windows 5 learners12) = [5, 5, 2] \<and>
   (\<exists>w'. delete_learners (srv_const resp_queued) api0 learners12 5 0 world0 =
           Some (Inr NoneVal, w') \<and>
         calls w' = 3 \<and>
         requests_of (trace w') =
           map (\<lambda>vals. post_request api0 (BULK_DELETE_URL ''ws'') (delete_params vals))
             [[''1'', ''u'', ''2'', ''u'', ''3'', ''u'', ''4'', ''u'', ''5'', ''u''],
              [''6'', ''u'', ''7'', ''u'', ''8'', ''u'', ''9'', ''u'', ''10'', ''u''],
              [''11'', ''u'', ''12'', ''u'']])"
proof -
  have keys: "\<forall>l \<in> set learners12. l ''id'' \<noteq> None \<and> l ''original_username'' \<noteq> None"
    by (simp add: learners12_def learner_of_def)
  have ceiling: "\<forall>win \<in> set (spec_windows (nat 5) learners12).
      length (concat (map spec_flatten win)) < MAXIMUM_USERS_IN_DELETE_REQUEST"
    by (simp add: spec_windows_learners12 spec_flatten_learner_of
        MAXIMUM_USERS_IN_DELETE_REQUEST_def)
  have srv: "\<forall>n req. \<exists>r resp_json rid. srv_const resp_queued n req = Resp r \<and>
           \<not> (400 \<le> status_code r \<and> status_code r < 600) \<and>
           json_body r = Some resp_json \<and> json_getitem resp_json ''regulate_id'' = Inr rid"
    by (simp add: srv_const_def resp_queued_def)
  have len: "length learners12 = 12" by (simp add: learners12_def)
  from delete_learners_windows [of 5 learners12 "srv_const resp_queued" api0 world0,
      OF _ keys ceiling srv]
  show ?thesis
    by (auto simp: spec_windows_learners12 spec_flatten_learner_of len world0_def api0_def
        digits.simps)
qed

subsection \<open>What a run can send\<close>

lemma backoff_handler_inv:
  assumes "\<And>w e. I w \<Longrightarrow> (\<forall>r. e \<noteq> Http r) \<Longrightarrow> I (emit e w)"
  shows "I w \<Longrightarrow> I (backoff_handler wait tries x w)"
  by (cases x) (simp_all add: backoff_handler_def Let_def assms)

lemma on_exception_inv:
  "(\<And>w. I w \<Longrightarrow> I (snd (target w))) \<Longrightarrow>
   (\<And>w e. I w \<Longrightarrow> (\<forall>r. e \<noteq> Http r) \<Longrightarrow> I (emit e w)) \<Longrightarrow>
   I w \<Longrightarrow> I (snd (on_exception wg c m g target t w))"
proof (induction wg c m g target t w rule: on_exception.induct)
  case (1 wg c m g target t w)
  show ?case
  proof (cases "target w")
    case (Pair res w1)
    from "1.prems"(1) [OF "1.prems"(3)] Pair have w1: "I w1" by simp
    show ?thesis
    proof (cases res)
      case (Inr r)
      with Pair w1 show ?thesis by (simp add: on_exception_Inr)
    next
      case (Inl e1)
      show ?thesis
      proof (cases "c e1 \<and> \<not> g e1 \<and> Suc t < m")
        case True
        have "I (backoff_handler (next_wait wg t) (Suc t) e1 w1)"
          using "1.prems"(2) w1 by (rule backoff_handler_inv [where I = I])
        then have "I (emit (Sleep (next_wait wg t))
            (backoff_handler (next_wait wg t) (Suc t) e1 w1))"
          by (rule "1.prems"(2)) simp
        with True Pair Inl "1.IH" "1.prems"(1,2) show ?thesis
          by (simp add: on_exception_retry)
      next
        case False
        with Pair Inl have "on_exception wg c m g target t w = (Inl e1, w1)"
          by (subst on_exception.simps) auto
        with w1 show ?thesis by simp
      qed
    qed
  qed
qed

text \<open>
  The requests of the trace of \<open>w\<close> are those of \<open>w0\<close> followed by requests that all
  satisfy \<open>Q\<close>.
\<close>

lemma sent_inv_emit:
  assumes "\<exists>sent. requests_of (trace w) = requests_of (trace w0) @ sent \<and> (\<forall>r \<in> set sent. Q r)"
    and "\<forall>r. e \<noteq> Http r"
  shows "\<exists>sent. requests_of (trace (emit e w)) = requests_of (trace w0) @ sent \<and>
           (\<forall>r \<in> set sent. Q r)"
proof -
  from assms(2) have "requests_of [e] = []" by (cases e) simp_all
  with assms(1) show ?thesis by (simp add: requests_of_append)
qed

lemma sent_inv_send_request:
  assumes "\<exists>sent. requests_of (trace w) = requests_of (trace w0) @ sent \<and> (\<forall>r \<in> set sent. Q r)"
    and "Q req"
  shows "\<exists>sent. requests_of (trace (snd (send_request srv req w))) = requests_of (trace w0) @ sent \<and>
           (\<forall>r \<in> set sent. Q r)"
proof -
  from assms(1) obtain sent where
    "requests_of (trace w) = requests_of (trace w0) @ sent" "\<forall>r \<in> set sent. Q r" by blast
  with assms(2) have
    "requests_of (trace (snd (send_request srv req w))) = requests_of (trace w0) @ (sent @ [req]) \<and>
     (\<forall>r \<in> set (sent @ [req]). Q r)"
    by (simp add: send_request_def Let_def requests_of_append split: http_result.splits)
  then show ?thesis by blast
qed

lemma sent_inv_retry:
  assumes "\<exists>sent. requests_of (trace w) = requests_of (trace w0) @ sent \<and> (\<forall>r \<in> set sent. Q r)"
    and "Q req"
  shows "\<exists>sent. requests_of (trace (snd (retry_segment_api (send_request srv req) w))) =
           requests_of (trace w0) @ sent \<and> (\<forall>r \<in> set sent. Q r)"
  unfolding retry_segment_api_send
  using assms(1)
  by (intro on_exception_inv [where I = "\<lambda>w. \<exists>sent. requests_of (trace w) =
        requests_of (trace w0) @ sent \<and> (\<forall>r \<in> set sent. Q r)"]
      sent_inv_send_request sent_inv_emit assms(2))

lemma sent_inv_submit:
  assumes "\<exists>sent. requests_of (trace w) = requests_of (trace w0) @ sent \<and> (\<forall>r \<in> set sent. Q r)"
    and "Q (post_request api (BULK_DELETE_URL (workspace_slug api)) (delete_params learner_vals))"
  shows "\<exists>sent. requests_of (trace (snd (submit srv api start_idx end_idx learner_vals w))) =
           requests_of (trace w0) @ sent \<and> (\<forall>r \<in> set sent. Q r)"
proof -
  define I where "I = (\<lambda>w::world. \<exists>sent. requests_of (trace w) = requests_of (trace w0) @ sent \<and>
    (\<forall>r \<in> set sent. Q r))"
  obtain res w1 where c: "call_segment_post srv api (BULK_DELETE_URL (workspace_slug api))
      (delete_params learner_vals) w = (res, w1)"
    by (cases "call_segment_post srv api (BULK_DELETE_URL (workspace_slug api))
      (delete_params learner_vals) w") auto
  from sent_inv_retry [OF assms, of srv] c have w1: "I w1"
    by (simp add: call_segment_post_def I_def)
  have e: "I (emit e w')" if "I w'" "\<forall>r. e \<noteq> Http r" for e w'
    using that unfolding I_def by (rule sent_inv_emit)
  have wrap: "I (snd (wrap_error start_idx end_idx content x w1))" for content x
    by (simp add: wrap_error_def e w1)
  have "I (snd (submit srv api start_idx end_idx learner_vals w))"
  proof (cases res)
    case (Inl x)
    with c show ?thesis by (simp add: submit_def wrap w1)
  next
    case (Inr resp)
    show ?thesis
    proof (cases "json_body resp")
      case None
      with c Inr show ?thesis by (simp add: submit_def wrap)
    next
      case (Some resp_json)
      with c Inr show ?thesis
        by (cases "json_getitem resp_json ''regulate_id''") (simp_all add: submit_def wrap e w1)
    qed
  qed
  then show ?thesis by (simp add: I_def)
qed

lemma sent_inv_window_step:
  assumes "\<exists>sent. requests_of (trace w) = requests_of (trace w0) @ sent \<and> (\<forall>r \<in> set sent. Q r)"
    and "\<And>vals. length vals < MAXIMUM_USERS_IN_DELETE_REQUEST \<Longrightarrow>
           Q (post_request api (BULK_DELETE_URL (workspace_slug api)) (delete_params vals))"
  shows "\<exists>sent. requests_of (trace (snd (window_step srv api learners chunk_size curr_idx w))) =
           requests_of (trace w0) @ sent \<and> (\<forall>r \<in> set sent. Q r)"
proof -
  define I where "I = (\<lambda>w::world. \<exists>sent. requests_of (trace w) = requests_of (trace w0) @ sent \<and>
    (\<forall>r \<in> set sent. Q r))"
  define e where "e = min (curr_idx + chunk_size - 1) (int (length learners) - 1)"
  have w: "I w" using assms(1) by (simp add: I_def)
  have emit: "I (emit ev w')" if "I w'" "\<forall>r. ev \<noteq> Http r" for ev w'
    using that unfolding I_def by (rule sent_inv_emit)
  have s: "I (snd (submit srv api a b vals w'))"
    if "I w'" "length vals < MAXIMUM_USERS_IN_DELETE_REQUEST" for a b vals w'
    using that(1) assms(2) [OF that(2)] unfolding I_def by (rule sent_inv_submit)
  have "I (snd (window_step srv api learners chunk_size curr_idx w))"
  proof (cases "attempt_args learners curr_idx e")
    case (Inl x)
    with w show ?thesis by (simp add: window_step_args_fail [OF e_def])
  next
    case (Inr args)
    obtain a b c d where args: "args = (a, b, c, d)" by (cases args) auto
    have w1: "I (emit (LogInfoAttempt curr_idx e a b c d) w)"
      using w by (rule emit) simp
    show ?thesis
    proof (cases "flatten_vals learners [curr_idx..e] []")
      case (Inl x)
      with Inr args w1 show ?thesis by (simp add: window_step_flatten_fail [OF e_def])
    next
      case vals: (Inr learner_vals)
      show ?thesis
      proof (cases "MAXIMUM_USERS_IN_DELETE_REQUEST \<le> length learner_vals")
        case True
        with Inr args vals w1 show ?thesis
          by (simp add: window_step_too_many [OF e_def] emit)
      next
        case False
        with Inr args vals have "window_step srv api learners chunk_size curr_idx w =
            submit srv api curr_idx e learner_vals (emit (LogInfoAttempt curr_idx e a b c d) w)"
          by (intro window_step_submit [OF e_def]) simp_all
        with w1 False show ?thesis by (simp add: s)
      qed
    qed
  qed
  then show ?thesis by (simp add: I_def)
qed

lemma sent_inv_delete_loop:
  assumes run: "delete_loop srv api learners chunk_size curr_idx w = Some (res, w1)"
    and inv: "\<exists>sent. requests_of (trace w) = requests_of (trace w0) @ sent \<and> (\<forall>r \<in> set sent. Q r)"
    and Q: "\<And>vals. length vals < MAXIMUM_USERS_IN_DELETE_REQUEST \<Longrightarrow>
           Q (post_request api (BULK_DELETE_URL (workspace_slug api)) (delete_params vals))"
  shows "\<exists>sent. requests_of (trace w1) = requests_of (trace w0) @ sent \<and> (\<forall>r \<in> set sent. Q r)"
proof -
  let ?I = "\<lambda>w. \<exists>sent. requests_of (trace w) = requests_of (trace w0) @ sent \<and> (\<forall>r \<in> set sent. Q r)"
  have "srv = srv \<and> api = api \<and> ?I w \<longrightarrow> ?I (snd (res, w1))"
  proof (rule delete_loop.raw_induct
      [where P = "\<lambda>srv' api' learners' chunk' curr' w' y'. srv' = srv \<and> api' = api \<and> ?I w'
         \<longrightarrow> ?I (snd y')", OF _ run])
    fix f srv' api' learners' chunk' curr' w' y'
    assume IH: "\<And>srv'' api'' learners'' chunk'' curr'' w'' y''.
        f srv'' api'' learners'' chunk'' curr'' w'' = Some y'' \<Longrightarrow>
        srv'' = srv \<and> api'' = api \<and> ?I w'' \<longrightarrow> ?I (snd y'')"
      and step: "(if curr' < int (length learners')
          then case window_step srv' api' learners' chunk' curr' w' of
               (Continue, w'') \<Rightarrow> f srv' api' learners' chunk' (curr' + chunk') w''
             | (Return, w'') \<Rightarrow> Some (Inr NoneVal, w'')
             | (Raise e, w'') \<Rightarrow> Some (Inl e, w'')
          else Some (Inr NoneVal, w')) = Some y'"
    show "srv' = srv \<and> api' = api \<and> ?I w' \<longrightarrow> ?I (snd y')"
    proof
      assume a: "srv' = srv \<and> api' = api \<and> ?I w'"
      show "?I (snd y')"
      proof (cases "curr' < int (length learners')")
        case False
        with step a show ?thesis by auto
      next
        case True
        obtain st w2 where st: "window_step srv' api' learners' chunk' curr' w' = (st, w2)"
          by (cases "window_step srv' api' learners' chunk' curr' w'") auto
        have w2: "?I w2"
          using sent_inv_window_step [of w w0 Q api srv learners' chunk' curr', OF _ Q] a st
            sent_inv_window_step [of w' w0 Q api srv learners' chunk' curr', OF _ Q]
          by auto
        show ?thesis
        proof (cases st)
          case Continue
          with step True st have "f srv' api' learners' chunk' (curr' + chunk') w2 = Some y'"
            by simp
          from IH [OF this] a w2 show ?thesis by simp
        next
          case Return
          with step True st w2 show ?thesis by auto
        next
          case (Raise e)
          with step True st w2 show ?thesis by auto
        qed
      qed
    qed
  qed
  with inv show ?thesis by simp
qed

text \<open>
  C2. In every run of \<open>delete_learners\<close>, a window whose flattened values number 5000
  or more ends the run: the call returns without a request for that window or for any
  later one (the number of requests and the requests of the trace are those before
  the window). And whatever the inputs and the answers of the server, every request
  that a run which ends has sent is a bulk-delete request with fewer than 5000
  values.
\<close>

theorem ceiling_window_never_submitted:
  "(curr_idx < int (length learners) \<and>
    attempt_args learners curr_idx
      (min (curr_idx + chunk_size - 1) (int (length learners) - 1)) = Inr args \<and>
    flatten_vals learners
      [curr_idx..min (curr_idx + chunk_size - 1) (int (length learners) - 1)] [] =
      Inr learner_vals \<and>
    MAXIMUM_USERS_IN_DELETE_REQUEST \<le> length learner_vals \<longrightarrow>
      (\<exists>w'. delete_loop srv api learners chunk_size curr_idx w = Some (Inr NoneVal, w') \<and>
            calls w' = calls w \<and> requests_of (trace w') = requests_of (trace w)))
   \<and> (delete_learners srv api learners chunk_size beginning_idx w = Some (res, w1) \<longrightarrow>
      (\<exists>sent. requests_of (trace w1) = requests_of (trace w) @ sent \<and>
         (\<forall>r \<in> set sent. \<exists>vals.
            r = post_request api (BULK_DELETE_URL (workspace_slug api)) (delete_params vals) \<and>
            length vals < MAXIMUM_USERS_IN_DELETE_REQUEST)))"
proof (intro conjI impI)
  assume a: "curr_idx < int (length learners) \<and>
    attempt_args learners curr_idx
      (min (curr_idx + chunk_size - 1) (int (length learners) - 1)) = Inr args \<and>
    flatten_vals learners
      [curr_idx..min (curr_idx + chunk_size - 1) (int (length learners) - 1)] [] =
      Inr learner_vals \<and>
    MAXIMUM_USERS_IN_DELETE_REQUEST \<le> length learner_vals"
  obtain a' b c d where args: "args = (a', b, c, d)" by (cases args) auto
  define e where "e = min (curr_idx + chunk_size - 1) (int (length learners) - 1)"
  have "window_step srv api learners chunk_size curr_idx w =
        (Return, emit (LogErrorTooMany (length learner_vals))
                   (emit (LogInfoAttempt curr_idx e a' b c d) w))"
    using a args by (intro window_step_too_many [OF e_def]) (simp_all add: e_def)
  with a have "delete_loop srv api learners chunk_size curr_idx w =
      Some (Inr NoneVal, emit (LogErrorTooMany (length learner_vals))
                   (emit (LogInfoAttempt curr_idx e a' b c d) w))"
    by (intro delete_loop_Return) simp_all
  then show "\<exists>w'. delete_loop srv api learners chunk_size curr_idx w = Some (Inr NoneVal, w') \<and>
            calls w' = calls w \<and> requests_of (trace w') = requests_of (trace w)"
    by (simp add: requests_of_append)
next
  assume "delete_learners srv api learners chunk_size beginning_idx w = Some (res, w1)"
  then have "delete_loop srv api learners chunk_size beginning_idx w = Some (res, w1)"
    by (simp add: delete_learners_def)
  then show "\<exists>sent. requests_of (trace w1) = requests_of (trace w) @ sent \<and>
         (\<forall>r \<in> set sent. \<exists>vals.
            r = post_request api (BULK_DELETE_URL (workspace_slug api)) (delete_params vals) \<and>
            length vals < MAXIMUM_USERS_IN_DELETE_REQUEST)"
    by (rule sent_inv_delete_loop [where w0 = w]) auto
qed

theorem ceiling_window_never_submitted_witness:
  "(\<exists>w'. delete_loop (srv_const resp_queued) api0 (replicate 2500 (learner_of 1 ''u'')) 2500 0
           world0 = Some (Inr NoneVal, w') \<and>
         calls w' = 0 \<and> requests_of (trace w') = [])
   \<and> (\<exists>vals. post_request api0 (BULK_DELETE_URL ''ws'') (delete_params [''1'', ''u'']) =
         post_request api0 (BULK_DELETE_URL (workspace_slug api0)) (delete_params vals) \<and>
         length vals < MAXIMUM_USERS_IN_DELETE_REQUEST)"
proof -
  let ?ls = "replicate 2500 (learner_of 1 ''u'')"
  have e: "(2499::int) = min (0 + 2500 - 1) (int (length ?ls) - 1)" by simp
  have keys: "\<forall>l \<in> set (take (nat 2500) (drop (nat 0) ?ls)).
      l ''id'' \<noteq> None \<and> l ''original_username'' \<noteq> None"
    by (simp add: learner_of_def)
  note p = window_prepared [of 0 ?ls 2500 2499, OF _ _ _ e keys]
  have big: "MAXIMUM_USERS_IN_DELETE_REQUEST \<le>
      length (concat (map spec_flatten (take (nat 2500) (drop (nat 0) ?ls))))"
    by (simp add: spec_flatten_learner_of length_concat sum_list_replicate
        MAXIMUM_USERS_IN_DELETE_REQUEST_def)
  note t1 = ceiling_window_never_submitted [where curr_idx = 0 and learners = ?ls
      and chunk_size = 2500 and srv = "srv_const resp_queued" and api = api0 and w = world0
      and learner_vals = "concat (map spec_flatten (take (nat 2500) (drop (nat 0) ?ls)))",
      THEN conjunct1]
  note t2 = ceiling_window_never_submitted [where srv = "srv_const resp_queued" and api = api0
      and learners = "[learner_of 1 ''u'']" and chunk_size = 1 and beginning_idx = 0
      and w = world0, THEN conjunct2, rule_format, OF one_learner_run [folded delete_learners_def]]
  from p big t1 have "\<exists>w'. delete_loop (srv_const resp_queued) api0 ?ls 2500 0 world0 =
      Some (Inr NoneVal, w') \<and> calls w' = 0 \<and> requests_of (trace w') = []"
    by (simp add: world0_def)
  moreover from t2 have "\<exists>vals. post_request api0 (BULK_DELETE_URL ''ws'')
         (delete_params [''1'', ''u'']) =
         post_request api0 (BULK_DELETE_URL (workspace_slug api0)) (delete_params vals) \<and>
         length vals < MAXIMUM_USERS_IN_DELETE_REQUEST"
    by (simp add: world0_def)
  ultimately show ?thesis by blast
qed

end
